theory Spec2Isabelle
  imports Main "HOL-Library.Word" "HOL-Library.AList" "HOL-Library.Multiset"
begin

section \<open>The tracer registry\<close>

text \<open>
  A \<^verbatim>\<open>*Tracer\<close> is a pointer; the registry compares pointers, so a Tracer is
  identified here by its address. A call either returns or panics.
\<close>

type_synonym tracerPtr = nat

datatype 'a outcome = Returns 'a | Panics string

record tracerRegistryImpl =
  tracers :: "tracerPtr list"

text \<open>
  \<^verbatim>\<open>tr.tracers = append(tr.tracers, t)\<close>
\<close>

definition Add :: "tracerRegistryImpl \<Rightarrow> tracerPtr \<Rightarrow> tracerRegistryImpl" where
  "Add tr t = tr\<lparr>tracers := tracers tr @ [t]\<rparr>"

text \<open>
  \<^verbatim>\<open>tr.tracers[:i+copy(tr.tracers[i:], tr.tracers[i+1:])]\<close>: the builtin
  \<^verbatim>\<open>copy(dst, src)\<close> moves \<open>min (len dst) (len src)\<close> elements inside the one
  backing array and returns that number; the new slice is the prefix of the array of
  that length plus \<open>i\<close>.
\<close>

definition sliceDelete :: "nat \<Rightarrow> 'a list \<Rightarrow> 'a list" where
  "sliceDelete i xs =
     (let dst = drop i xs;
          src = drop (i + 1) xs;
          n = min (length dst) (length src);
          arr = take i xs @ take n src @ drop n dst
      in take (i + n) arr)"

text \<open>
  The loop \<^verbatim>\<open>for i := range tr.tracers\<close> of \<^verbatim>\<open>Remove\<close>, from index \<open>i\<close> on;
  falling out of the loop reaches \<^verbatim>\<open>panic("removing unknown tracer")\<close>.
\<close>

function removeLoop :: "nat \<Rightarrow> tracerPtr \<Rightarrow> tracerPtr list \<Rightarrow> tracerPtr list outcome" where
  "removeLoop i t xs =
     (if i < length xs
      then (if xs ! i = t then Returns (sliceDelete i xs) else removeLoop (i + 1) t xs)
      else Panics ''removing unknown tracer'')"
  by pat_completeness auto
termination
  by (relation "measure (\<lambda>(i, t, xs). length xs - i)") auto

declare removeLoop.simps [simp del]

definition Remove :: "tracerRegistryImpl \<Rightarrow> tracerPtr \<Rightarrow> tracerRegistryImpl outcome" where
  "Remove tr t =
     (case removeLoop 0 t (tracers tr) of
        Returns xs \<Rightarrow> Returns (tr\<lparr>tracers := xs\<rparr>)
      | Panics msg \<Rightarrow> Panics msg)"

section \<open>Strings and numbers of the Go standard library\<close>

text \<open>
  A Go string is a sequence of bytes, here a \<^typ>\<open>string\<close>. \<^verbatim>\<open>strings.ToLower\<close> is
  a function of the standard library that lower-cases by Unicode code point; its case
  tables are not part of this program, so the functions that call it take it as the
  parameter \<open>ToLower\<close>. What is known of it here is how it treats ASCII text: on a
  string whose bytes are all below 128 it replaces each of the bytes \<^verbatim>\<open>A\<close> to \<^verbatim>\<open>Z\<close>
  by its lower-case letter and keeps every other byte. \<open>lowersASCII ToLower\<close> says
  that a function does so; \<open>asciiToLower\<close> is the byte-wise function itself, which
  stands in for \<^verbatim>\<open>strings.ToLower\<close> where a concrete run on ASCII text is evaluated.
\<close>

definition lowerByte :: "char \<Rightarrow> char" where
  "lowerByte c =
     (let n = (of_char c :: nat)
      in if 65 \<le> n \<and> n \<le> 90 then ''abcdefghijklmnopqrstuvwxyz'' ! (n - 65) else c)"

definition asciiToLower :: "string \<Rightarrow> string" where
  "asciiToLower s = map lowerByte s"

definition isASCII :: "string \<Rightarrow> bool" where
  "isASCII s = list_all (\<lambda>c. (of_char c :: nat) < 128) s"

definition lowersASCII :: "(string \<Rightarrow> string) \<Rightarrow> bool" where
  "lowersASCII ToLower = (\<forall>s. isASCII s \<longrightarrow> ToLower s = asciiToLower s)"

definition HasPrefix :: "string \<Rightarrow> string \<Rightarrow> bool" where
  "HasPrefix s prefix = (length prefix \<le> length s \<and> take (length prefix) s = prefix)"

definition TrimPrefix :: "string \<Rightarrow> string \<Rightarrow> string" where
  "TrimPrefix s prefix = (if HasPrefix s prefix then drop (length prefix) s else s)"

text \<open>
  \<^verbatim>\<open>strconv.FormatUint(u, 16)\<close>: the digits of \<open>u\<close> in base 16, lower case, most
  significant first, no leading zero, and \<^verbatim>\<open>"0"\<close> for zero. The library's loop takes
  the lowest digit off while \<open>u \<ge> 16\<close> and ends with the digit that is left.
\<close>

definition digits :: string where
  "digits = ''0123456789abcdefghijklmnopqrstuvwxyz''"

function formatBits :: "nat \<Rightarrow> string" where
  "formatBits u =
     (if 16 \<le> u then formatBits (u div 16) @ [digits ! (u mod 16)] else [digits ! u])"
  by pat_completeness auto
termination
  by (relation "measure id") auto

declare formatBits.simps [simp del]

definition FormatUint :: "64 word \<Rightarrow> string" where
  "FormatUint u = formatBits (unat u)"

text \<open>
  \<^verbatim>\<open>strconv.ParseUint(s, 16, 64)\<close>. The empty string is a syntax error. Each byte must
  be a digit below the base, in either case (\<^verbatim>\<open>0-9\<close>, \<^verbatim>\<open>a-z\<close>, \<^verbatim>\<open>A-Z\<close>), or the
  result is a syntax error; a value that does not fit 64 bits is a range error: the
  loop refuses to multiply once \<open>n \<ge> cutoff\<close>, with \<open>cutoff = maxUint64 div 16 + 1\<close>,
  and refuses a sum above \<open>maxVal = 2^64 - 1\<close>. The accumulator is kept as a natural
  number, so the two overflow tests of the library read as written.
\<close>

datatype numError = ErrSyntax | ErrRange

definition digitValue :: "char \<Rightarrow> nat option" where
  "digitValue d =
     (let n = (of_char d :: nat)
      in if 48 \<le> n \<and> n \<le> 57 then Some (n - 48)
         else if 97 \<le> n \<and> n \<le> 122 then Some (n - 97 + 10)
         else if 65 \<le> n \<and> n \<le> 90 then Some (n - 65 + 10)
         else None)"

definition cutoff :: nat where
  "cutoff = (2 ^ 64 - 1) div 16 + 1"

definition maxVal :: nat where
  "maxVal = 2 ^ 64 - 1"

fun parseLoop :: "nat \<Rightarrow> string \<Rightarrow> numError + nat" where
  "parseLoop n [] = Inr n"
| "parseLoop n (d # ds) =
     (case digitValue d of
        None \<Rightarrow> Inl ErrSyntax
      | Some v \<Rightarrow>
          if 16 \<le> v then Inl ErrSyntax
          else if cutoff \<le> n then Inl ErrRange
          else if maxVal < n * 16 + v then Inl ErrRange
          else parseLoop (n * 16 + v) ds)"

definition ParseUint :: "string \<Rightarrow> numError + 64 word" where
  "ParseUint s =
     (if length s < 1 then Inl ErrSyntax
      else case parseLoop 0 s of
             Inl e \<Rightarrow> Inl e
           | Inr n \<Rightarrow> Inr (of_nat n))"

text \<open>
  A \<^verbatim>\<open>map[string]string\<close> is kept as the list of its entries, one per key, in the
  order an iteration presents them; the nil map and the empty map are both the empty
  list. \<open>m[k] = v\<close> is \<^const>\<open>AList.update\<close>, and reading \<open>m[k]\<close> gives the empty
  string for a key that is absent.
\<close>

type_synonym textMap = "(string \<times> string) list"

definition mapIndex :: "textMap \<Rightarrow> string \<Rightarrow> string" where
  "mapIndex m k = (case map_of m k of None \<Rightarrow> [] | Some v \<Rightarrow> v)"

section \<open>The propagation codec\<close>

definition Snowball :: string where
  "Snowball = ''sb''"

definition maxLogsPerSpan :: nat where
  "maxLogsPerSpan = 1000"

definition prefixTracerState :: string where
  "prefixTracerState = ''crdb-tracer-''"

definition prefixBaggage :: string where
  "prefixBaggage = ''crdb-baggage-''"

definition prefixShadow :: string where
  "prefixShadow = ''crdb-shadow-''"

definition fieldNameTraceID :: string where
  "fieldNameTraceID = prefixTracerState @ ''traceid''"

definition fieldNameSpanID :: string where
  "fieldNameSpanID = prefixTracerState @ ''spanid''"

definition fieldNameShadowType :: string where
  "fieldNameShadowType = prefixTracerState @ ''shadowtype''"

text \<open>
  The format argument is an \<^verbatim>\<open>interface{}\<close>: one of opentracing's three builtin
  formats or any other value. The errors are opentracing's, and whatever error the
  shadow tracer reports.
\<close>

datatype format = Binary | TextMap | HTTPHeaders | OtherFormat

datatype tracingError =
    ErrUnsupportedFormat
  | ErrInvalidCarrier
  | ErrInvalidSpanContext
  | ErrSpanContextCorrupted
  | ShadowError string

text \<open>
  Modelled from the spec: the declaration of \<^verbatim>\<open>shadowTracer\<close> is not in the file.
  The spec has the shadow tracer as an external collaborator, used through its
  capability surface: its type name, and its own Inject and Extract. Its Inject is
  given by the \<^verbatim>\<open>Set\<close> calls it makes on the writer it is handed, in order, and the
  error it returns; its span contexts are opaque.
\<close>

type_synonym shadowContext = nat

record shadowTracer =
  shadowAddr :: nat
  Typ :: string
  shadowInject :: "shadowContext option \<Rightarrow> format \<Rightarrow> textMap \<times> tracingError option"
  shadowExtract :: "format \<Rightarrow> textMap \<Rightarrow> shadowContext option \<times> tracingError option"

text \<open>
  Modelled from the spec: the declarations of \<^verbatim>\<open>RecordingType\<close> and of
  \<^verbatim>\<open>spanContext\<close> are not in the file. The spec has the recording kinds Explicit and
  Snowball beside the state of not recording (the zero value), and a context of trace
  id, span id, baggage, optional shadow tracer and shadow context; the code reads the
  fields below. A \<^verbatim>\<open>*spanGroup\<close> is the address of the group.
\<close>

datatype RecordingType = NoRecording | SnowballRecording | ExplicitRecording

record spanContext =
  TraceID :: "64 word"
  SpanID :: "64 word"
  Baggage :: textMap
  shadowTr :: "shadowTracer option"
  shadowCtx :: "shadowContext option"
  recordingGroup :: "nat option"
  recordingType :: RecordingType

text \<open>
  An \<^verbatim>\<open>opentracing.SpanContext\<close> value: nil, the noop context, a pointer to a
  \<^verbatim>\<open>spanContext\<close>, or a context of some other implementation.
\<close>

datatype SpanContext =
    NilContext
  | noopSpanContext
  | spanContextPtr spanContext
  | ForeignContext

text \<open>
  A carrier is an \<^verbatim>\<open>interface{}\<close> too. It may or may not implement
  \<^verbatim>\<open>TextMapWriter\<close> and \<^verbatim>\<open>TextMapReader\<close>; one that does is read and written as
  \<^verbatim>\<open>opentracing.TextMapCarrier\<close> is, a \<^verbatim>\<open>map[string]string\<close>: \<^verbatim>\<open>Set\<close> assigns
  the key, and \<^verbatim>\<open>ForeachKey\<close> hands every entry to the handler, in the map's
  iteration order, stopping at the first error the handler returns.
\<close>

record carrier =
  entries :: textMap
  isTextMapWriter :: bool
  isTextMapReader :: bool

definition TextMapCarrier :: "textMap \<Rightarrow> carrier" where
  "TextMapCarrier m = \<lparr>entries = m, isTextMapWriter = True, isTextMapReader = True\<rparr>"

definition Set_entry :: "carrier \<Rightarrow> string \<Rightarrow> string \<Rightarrow> carrier" where
  "Set_entry c k v = c\<lparr>entries := AList.update k v (entries c)\<rparr>"

fun ForeachKey ::
  "textMap \<Rightarrow> ('s \<Rightarrow> string \<Rightarrow> string \<Rightarrow> tracingError + 's) \<Rightarrow> 's \<Rightarrow> tracingError + 's" where
  "ForeachKey [] handler st = Inr st"
| "ForeachKey ((k, v) # kvs) handler st =
     (case handler st k v of
        Inl err \<Rightarrow> Inl err
      | Inr st' \<Rightarrow> ForeachKey kvs handler st')"

text \<open>
  The Tracer: its address (which is also that of its preallocated noop span), the
  \<^verbatim>\<open>forceRealSpans\<close> flag and the shadow tracer it holds at the moment of the call.
\<close>

record Tracer =
  tracerAddr :: tracerPtr
  forceRealSpans :: bool
  shadowTracer :: "shadowTracer option"

definition getShadowTracer :: "Tracer \<Rightarrow> shadowTracer option" where
  "getShadowTracer t = shadowTracer t"

text \<open>
  \<^verbatim>\<open>Inject\<close> returns the error (\<open>None\<close> is nil) and the carrier as the call leaves it.
\<close>

definition injectBaggage :: "textMap \<Rightarrow> carrier \<Rightarrow> carrier" where
  "injectBaggage bag c = fold (\<lambda>(k, v) c'. Set_entry c' (prefixBaggage @ k) v) bag c"

definition injectShadow :: "textMap \<Rightarrow> carrier \<Rightarrow> carrier" where
  "injectShadow kvs c = fold (\<lambda>(k, v) c'. Set_entry c' (prefixShadow @ k) v) kvs c"

definition injectContext :: "spanContext \<Rightarrow> format \<Rightarrow> carrier \<Rightarrow> tracingError option \<times> carrier" where
  "injectContext sc fmt c =
     (let c1 = Set_entry c fieldNameTraceID (FormatUint (TraceID sc));
          c2 = Set_entry c1 fieldNameSpanID (FormatUint (SpanID sc));
          c3 = injectBaggage (Baggage sc) c2
      in case shadowTr sc of
           None \<Rightarrow> (None, c3)
         | Some sh \<Rightarrow>
             (let c4 = Set_entry c3 fieldNameShadowType (Typ sh);
                  (kvs, err) = shadowInject sh (shadowCtx sc) fmt
              in (err, injectShadow kvs c4)))"

fun Inject :: "Tracer \<Rightarrow> SpanContext \<Rightarrow> format \<Rightarrow> carrier \<Rightarrow> tracingError option \<times> carrier" where
  "Inject t noopSpanContext fmt c = (None, c)"
| "Inject t osc fmt c =
     (if fmt \<noteq> HTTPHeaders \<and> fmt \<noteq> TextMap then (Some ErrUnsupportedFormat, c)
      else if \<not> isTextMapWriter c then (Some ErrInvalidCarrier, c)
      else case osc of
             spanContextPtr sc \<Rightarrow> injectContext sc fmt c
           | _ \<Rightarrow> (Some ErrInvalidSpanContext, c))"

text \<open>
  \<^verbatim>\<open>Extract\<close>: the handler's captured variables are the state of the iteration.
  The first argument \<open>ToLower\<close> is the library's \<^verbatim>\<open>strings.ToLower\<close>.
\<close>

record extractState =
  sc :: spanContext
  shadowType :: string
  shadowCarrier :: textMap

definition zeroSpanContext :: spanContext where
  "zeroSpanContext =
     \<lparr>TraceID = 0, SpanID = 0, Baggage = [], shadowTr = None, shadowCtx = None,
      recordingGroup = None, recordingType = NoRecording\<rparr>"

definition extractHandler ::
  "(string \<Rightarrow> string) \<Rightarrow> extractState \<Rightarrow> string \<Rightarrow> string \<Rightarrow> tracingError + extractState" where
  "extractHandler ToLower st k0 v =
     (let k = ToLower k0
      in if k = fieldNameTraceID then
           (case ParseUint v of
              Inl e \<Rightarrow> Inl ErrSpanContextCorrupted
            | Inr n \<Rightarrow> Inr (st\<lparr>sc := (sc st)\<lparr>TraceID := n\<rparr>\<rparr>))
         else if k = fieldNameSpanID then
           (case ParseUint v of
              Inl e \<Rightarrow> Inl ErrSpanContextCorrupted
            | Inr n \<Rightarrow> Inr (st\<lparr>sc := (sc st)\<lparr>SpanID := n\<rparr>\<rparr>))
         else if k = fieldNameShadowType then Inr (st\<lparr>shadowType := v\<rparr>)
         else if HasPrefix k prefixBaggage then
           Inr (st\<lparr>sc := (sc st)\<lparr>Baggage :=
                  AList.update (TrimPrefix k prefixBaggage) v (Baggage (sc st))\<rparr>\<rparr>)
         else if HasPrefix k prefixShadow then
           Inr (st\<lparr>shadowCarrier :=
                  AList.update (TrimPrefix k prefixShadow) v (shadowCarrier st)\<rparr>)
         else Inr st)"

definition extractShadow ::
  "(string \<Rightarrow> string) \<Rightarrow> Tracer \<Rightarrow> format \<Rightarrow> extractState \<Rightarrow> SpanContext \<times> tracingError option" where
  "extractShadow ToLower t fmt st =
     (if shadowType st \<noteq> [] then
        (case getShadowTracer t of
           None \<Rightarrow> (spanContextPtr (sc st), None)
         | Some sh \<Rightarrow>
             if ToLower (shadowType st) = ToLower (Typ sh) then
               (case shadowExtract sh fmt (shadowCarrier st) of
                  (ctx, Some err) \<Rightarrow> (noopSpanContext, Some err)
                | (ctx, None) \<Rightarrow>
                    (spanContextPtr ((sc st)\<lparr>shadowTr := Some sh, shadowCtx := ctx\<rparr>), None))
             else (spanContextPtr (sc st), None))
      else (spanContextPtr (sc st), None))"

definition Extract ::
  "(string \<Rightarrow> string) \<Rightarrow> Tracer \<Rightarrow> format \<Rightarrow> carrier \<Rightarrow> SpanContext \<times> tracingError option" where
  "Extract ToLower t fmt c =
     (if fmt \<noteq> HTTPHeaders \<and> fmt \<noteq> TextMap then (noopSpanContext, Some ErrUnsupportedFormat)
      else if \<not> isTextMapReader c then (noopSpanContext, Some ErrInvalidCarrier)
      else case ForeachKey (entries c) (extractHandler ToLower)
                  \<lparr>sc = zeroSpanContext, shadowType = [], shadowCarrier = []\<rparr> of
             Inl err \<Rightarrow> (noopSpanContext, Some err)
           | Inr st \<Rightarrow>
               if TraceID (sc st) = 0 \<and> SpanID (sc st) = 0 then (noopSpanContext, None)
               else extractShadow ToLower t fmt st)"

section \<open>Starting a span\<close>

text \<open>
  What a call reads from outside the Tracer: the cluster setting
  \<^verbatim>\<open>trace.debug.enable\<close>, the random source behind \<^verbatim>\<open>rand.Int63\<close> (the values it
  will return and how many were drawn), the clock, and the allocator of span groups
  (every group allocated so far has an address below \<open>heapTop\<close>).
\<close>

record world =
  enableNetTrace :: bool
  randVals :: "nat \<Rightarrow> 64 word"
  randNext :: nat
  now :: nat
  heapTop :: nat

text \<open>\<^verbatim>\<open>uint64(rand.Int63())\<close>: a non-negative 63-bit value.\<close>

definition randInt63 :: "world \<Rightarrow> 64 word \<times> world" where
  "randInt63 w = (take_bit 63 (randVals w (randNext w)), w\<lparr>randNext := Suc (randNext w)\<rparr>)"

text \<open>\<^verbatim>\<open>new(spanGroup)\<close>: the next free address.\<close>

definition newSpanGroup :: "world \<Rightarrow> nat \<times> world" where
  "newSpanGroup w = (heapTop w, w\<lparr>heapTop := Suc (heapTop w)\<rparr>)"

text \<open>
  The options of opentracing: a span reference (its type is an integer, \<^verbatim>\<open>ChildOfRef\<close>,
  \<^verbatim>\<open>FollowsFromRef\<close> or any other), a tag, a start time (0 is the zero time), and this
  package's \<^verbatim>\<open>Recordable\<close>. \<^verbatim>\<open>Apply\<close> is the library's: a reference to a nil context
  is not appended, a tag is assigned in the tag map.
\<close>

datatype SpanReferenceType = ChildOfRef | FollowsFromRef | OtherRef

datatype tagValue = TagString string | TagBool bool | TagNumber int

datatype StartSpanOption =
    SpanReference SpanReferenceType SpanContext
  | TagOption string tagValue
  | StartTimeOption nat
  | recordableOption

record StartSpanOptions =
  References :: "(SpanReferenceType \<times> SpanContext) list"
  StartTime :: nat
  Tags :: "(string \<times> tagValue) list"

fun Apply :: "StartSpanOption \<Rightarrow> StartSpanOptions \<Rightarrow> StartSpanOptions" where
  "Apply (SpanReference ty ctx) sso =
     (if ctx \<noteq> NilContext then sso\<lparr>References := References sso @ [(ty, ctx)]\<rparr> else sso)"
| "Apply (TagOption k v) sso = sso\<lparr>Tags := AList.update k v (Tags sso)\<rparr>"
| "Apply (StartTimeOption ts) sso = sso\<lparr>StartTime := ts\<rparr>"
| "Apply recordableOption sso = sso"

text \<open>
  Modelled from the spec: the declaration of \<^verbatim>\<open>span\<close> and the helpers
  \<^verbatim>\<open>SetTag\<close>, \<^verbatim>\<open>enableRecording\<close> and \<^verbatim>\<open>linkShadowSpan\<close> are not in the file. The spec
  gives a span an operation name, start time, duration, a mapping of tag name to value,
  baggage, a parent span id, a reference to its RecordingGroup with a recording kind,
  and the mirrored state for the shadow tracer and the debug sink. Setting a tag
  assigns it in the tag map; starting a recording attaches the span to the group with
  the kind; linking a shadow span opens a mirrored span in the given shadow tracer,
  linked to the parent's shadow context (if any) with the relationship kind, and stores
  the tracer and the mirrored span on the span. The debug sink is built from a family,
  a title and a capacity.
\<close>

record shadowSpan =
  shadowSpanTracer :: nat
  shadowSpanOperation :: string
  shadowSpanParent :: "(SpanReferenceType \<times> shadowContext) option"

record netTrace =
  family :: string
  title :: string
  maxEvents :: nat

record span =
  tracer :: tracerPtr
  operation :: string
  startTime :: nat
  duration :: int
  tags :: "(string \<times> tagValue) list"
  span_TraceID :: "64 word"
  span_SpanID :: "64 word"
  parentSpanID :: "64 word"
  span_shadowTr :: "shadowTracer option"
  span_shadowSpan :: "shadowSpan option"
  mu_recordingGroup :: "nat option"
  mu_recordingType :: RecordingType
  netTr :: "netTrace option"
  mu_Baggage :: textMap

definition SetTag :: "span \<Rightarrow> string \<Rightarrow> tagValue \<Rightarrow> span" where
  "SetTag s k v = s\<lparr>tags := AList.update k v (tags s)\<rparr>"

definition enableRecording :: "span \<Rightarrow> nat \<Rightarrow> RecordingType \<Rightarrow> span" where
  "enableRecording s grp recType = s\<lparr>mu_recordingGroup := Some grp, mu_recordingType := recType\<rparr>"

definition linkShadowSpan ::
  "span \<Rightarrow> shadowTracer \<Rightarrow> shadowContext option \<Rightarrow> SpanReferenceType \<Rightarrow> span" where
  "linkShadowSpan s sh parentShadowCtx parentType =
     s\<lparr>span_shadowTr := Some sh,
       span_shadowSpan := Some
         \<lparr>shadowSpanTracer = shadowAddr sh,
          shadowSpanOperation = operation s,
          shadowSpanParent = map_option (\<lambda>c. (parentType, c)) parentShadowCtx\<rparr>\<rparr>"

text \<open>
  What \<^verbatim>\<open>StartSpan\<close> returns: the address of the Tracer's preallocated noop span, or
  a pointer to a span it has just built.
\<close>

datatype Span = noopSpanPtr tracerPtr | spanPtr span

text \<open>
  The first fast path: \<^verbatim>\<open>len(opts) == 1\<close>, the option is a \<^verbatim>\<open>SpanReference\<close> and the
  context it refers to is the noop context.
\<close>

definition singleNoopReference :: "StartSpanOption list \<Rightarrow> bool" where
  "singleNoopReference opts =
     (length opts = 1 \<and>
      (case opts ! 0 of
         SpanReference ty ctx \<Rightarrow> (case ctx of noopSpanContext \<Rightarrow> True | _ \<Rightarrow> False)
       | _ \<Rightarrow> False))"

text \<open>
  The variables the loop over \<^verbatim>\<open>sso.References\<close> sets; \<^verbatim>\<open>hasParent\<close> is true exactly
  when \<^verbatim>\<open>parentCtx\<close> was assigned. The loop skips a reference of another type, to nil
  or to the noop context, and stops at the first one left; the type assertion to
  \<^verbatim>\<open>*spanContext\<close> panics on a context of another implementation.
\<close>

record parentVars =
  parentType :: SpanReferenceType
  parentCtx :: "spanContext option"
  recGroup :: "nat option"
  recType :: RecordingType

definition hasParent :: "parentVars \<Rightarrow> bool" where
  "hasParent pv = (parentCtx pv \<noteq> None)"

definition noParentVars :: parentVars where
  "noParentVars = \<lparr>parentType = ChildOfRef, parentCtx = None, recGroup = None, recType = NoRecording\<rparr>"

fun referencesLoop ::
  "(SpanReferenceType \<times> SpanContext) list \<Rightarrow> world \<Rightarrow> (parentVars \<times> world) outcome" where
  "referencesLoop [] w = Returns (noParentVars, w)"
| "referencesLoop ((ty, ctx) # rs) w =
     (if ty \<noteq> ChildOfRef \<and> ty \<noteq> FollowsFromRef then referencesLoop rs w
      else case ctx of
             NilContext \<Rightarrow> referencesLoop rs w
           | noopSpanContext \<Rightarrow> referencesLoop rs w
           | ForeignContext \<Rightarrow> Panics ''interface conversion: SpanContext is not *spanContext''
           | spanContextPtr pc \<Rightarrow>
               (if recordingGroup pc \<noteq> None then
                  Returns (\<lparr>parentType = ty, parentCtx = Some pc,
                            recGroup = recordingGroup pc, recType = recordingType pc\<rparr>, w)
                else if mapIndex (Baggage pc) Snowball \<noteq> [] then
                  (let (grp, w') = newSpanGroup w
                   in Returns (\<lparr>parentType = ty, parentCtx = Some pc,
                                recGroup = Some grp, recType = SnowballRecording\<rparr>, w'))
                else
                  Returns (\<lparr>parentType = ty, parentCtx = Some pc,
                            recGroup = None, recType = NoRecording\<rparr>, w)))"

definition zeroSpan :: span where
  "zeroSpan =
     \<lparr>tracer = 0, operation = [], startTime = 0, duration = 0, tags = [],
      span_TraceID = 0, span_SpanID = 0, parentSpanID = 0, span_shadowTr = None,
      span_shadowSpan = None, mu_recordingGroup = None, mu_recordingType = NoRecording,
      netTr = None, mu_Baggage = []\<rparr>"

text \<open>The steps of \<^verbatim>\<open>StartSpan\<close> after the decision to build a real span, in order.\<close>

definition initSpan :: "Tracer \<Rightarrow> world \<Rightarrow> string \<Rightarrow> StartSpanOptions \<Rightarrow> span" where
  "initSpan t w operationName sso =
     (let s = zeroSpan\<lparr>tracer := tracerAddr t, operation := operationName,
                       startTime := StartTime sso\<rparr>;
          s = (if startTime s = 0 then s\<lparr>startTime := now w\<rparr> else s);
          s = s\<lparr>duration := - 1\<rparr>
      in fold (\<lambda>(k, v) s'. SetTag s' k v) (Tags sso) s)"

definition assignIDs :: "parentVars \<Rightarrow> span \<Rightarrow> world \<Rightarrow> span \<times> world" where
  "assignIDs pv s w =
     (let (s, w) =
            (case parentCtx pv of
               None \<Rightarrow> (let (r, w') = randInt63 w in (s\<lparr>span_TraceID := r\<rparr>, w'))
             | Some pc \<Rightarrow> (s\<lparr>span_TraceID := TraceID pc\<rparr>, w));
          (r, w) = randInt63 w
      in (s\<lparr>span_SpanID := r\<rparr>, w))"

definition linkShadow :: "parentVars \<Rightarrow> shadowTracer option \<Rightarrow> span \<Rightarrow> span" where
  "linkShadow pv shadowTr' s =
     (case shadowTr' of
        None \<Rightarrow> s
      | Some sh \<Rightarrow>
          linkShadowSpan s sh
            (case parentCtx pv of None \<Rightarrow> None | Some pc \<Rightarrow> shadowCtx pc)
            (parentType pv))"

definition startRecording :: "parentVars \<Rightarrow> span \<Rightarrow> span" where
  "startRecording pv s =
     (case recGroup pv of None \<Rightarrow> s | Some grp \<Rightarrow> enableRecording s grp (recType pv))"

definition openNetTrace :: "bool \<Rightarrow> string \<Rightarrow> span \<Rightarrow> span" where
  "openNetTrace netTrace operationName s =
     (if netTrace
      then s\<lparr>netTr := Some \<lparr>family = ''tracing'', title = operationName,
                            maxEvents = maxLogsPerSpan\<rparr>\<rparr>
      else s)"

definition copyParent :: "parentVars \<Rightarrow> span \<Rightarrow> span" where
  "copyParent pv s =
     (case parentCtx pv of
        None \<Rightarrow> s
      | Some pc \<Rightarrow>
          (let s = s\<lparr>parentSpanID := SpanID pc\<rparr>
           in if 0 < length (Baggage pc)
              then s\<lparr>mu_Baggage := fold (\<lambda>(k, v) m. AList.update k v m) (Baggage pc) []\<rparr>
              else s))"

definition baggageToTags :: "bool \<Rightarrow> shadowTracer option \<Rightarrow> span \<Rightarrow> span" where
  "baggageToTags netTrace shadowTr' s =
     (if netTrace \<or> shadowTr' \<noteq> None
      then fold (\<lambda>(k, v) s'. SetTag s' k (TagString v)) (mu_Baggage s) s
      else s)"

definition buildSpan ::
  "Tracer \<Rightarrow> world \<Rightarrow> string \<Rightarrow> StartSpanOptions \<Rightarrow> parentVars \<Rightarrow> shadowTracer option \<Rightarrow>
   bool \<Rightarrow> Span \<times> world" where
  "buildSpan t w operationName sso pv shadowTr' netTrace =
     (let s = initSpan t w operationName sso;
          (s, w) = assignIDs pv s w;
          s = linkShadow pv shadowTr' s;
          s = startRecording pv s;
          s = openNetTrace netTrace operationName s;
          s = copyParent pv s;
          s = baggageToTags netTrace shadowTr' s
      in (spanPtr s, w))"

definition zeroStartSpanOptions :: StartSpanOptions where
  "zeroStartSpanOptions = \<lparr>References = [], StartTime = 0, Tags = []\<rparr>"

definition StartSpan ::
  "Tracer \<Rightarrow> world \<Rightarrow> string \<Rightarrow> StartSpanOption list \<Rightarrow> (Span \<times> world) outcome" where
  "StartSpan t w operationName opts =
     (if singleNoopReference opts then Returns (noopSpanPtr (tracerAddr t), w)
      else
        let netTrace = enableNetTrace w;
            shadowTr' = getShadowTracer t
        in if length opts = 0 \<and> \<not> netTrace \<and> shadowTr' = None \<and> \<not> forceRealSpans t
           then Returns (noopSpanPtr (tracerAddr t), w)
           else
             let sso = fold Apply opts zeroStartSpanOptions;
                 recordable = (recordableOption \<in> set opts)
             in case referencesLoop (References sso) w of
                  Panics msg \<Rightarrow> Panics msg
                | Returns (pv, w) \<Rightarrow>
                    let shadowTr' =
                          (case parentCtx pv of None \<Rightarrow> shadowTr' | Some pc \<Rightarrow> shadowTr pc)
                    in if \<not> recordable \<and> recGroup pv = None \<and> shadowTr' = None \<and>
                          \<not> netTrace \<and> \<not> forceRealSpans t
                       then Returns (noopSpanPtr (tracerAddr t), w)
                       else Returns (buildSpan t w operationName sso pv shadowTr' netTrace))"

text \<open>
  Two notions the statements about \<^verbatim>\<open>StartSpan\<close> use. An option is a real parent
  reference when the loop over the references does not skip it: a \<^verbatim>\<open>SpanReference\<close>
  of type \<^verbatim>\<open>ChildOfRef\<close> or \<^verbatim>\<open>FollowsFromRef\<close> whose context is neither nil nor the
  noop context. The references an option contributes to \<^verbatim>\<open>sso.References\<close> are what
  \<^const>\<open>Apply\<close> appends for it.
\<close>

fun realParentReference :: "StartSpanOption \<Rightarrow> bool" where
  "realParentReference (SpanReference ty ctx) =
     ((ty = ChildOfRef \<or> ty = FollowsFromRef) \<and> ctx \<noteq> NilContext \<and> ctx \<noteq> noopSpanContext)"
| "realParentReference (TagOption k v) = False"
| "realParentReference (StartTimeOption ts) = False"
| "realParentReference recordableOption = False"

fun optionReferences :: "StartSpanOption \<Rightarrow> (SpanReferenceType \<times> SpanContext) list" where
  "optionReferences (SpanReference ty ctx) = (if ctx \<noteq> NilContext then [(ty, ctx)] else [])"
| "optionReferences (TagOption k v) = []"
| "optionReferences (StartTimeOption ts) = []"
| "optionReferences recordableOption = []"

section \<open>Properties of the registry\<close>

lemma sliceDelete_eq: "i < length xs \<Longrightarrow> sliceDelete i xs = take i xs @ drop (Suc i) xs"
  by (simp add: sliceDelete_def Let_def min_def)

lemma removeLoop_remove1:
  "i \<le> length xs \<Longrightarrow> t \<notin> set (take i xs) \<Longrightarrow>
   removeLoop i t xs =
     (if t \<in> set xs then Returns (remove1 t xs) else Panics ''removing unknown tracer'')"
proof (induction i t xs rule: removeLoop.induct)
  case (1 i t xs)
  show ?case
  proof (cases "i < length xs")
    case False
    with "1.prems" have "take i xs = xs" by simp
    with "1.prems" have "t \<notin> set xs" by simp
    with False show ?thesis by (subst removeLoop.simps) simp
  next
    case True
    note lt = True
    show ?thesis
    proof (cases "xs ! i = t")
      case True
      have xs: "xs = take i xs @ t # drop (Suc i) xs"
        using lt True by (metis id_take_nth_drop)
      have mem: "t \<in> set xs" using lt True by (metis nth_mem)
      have "remove1 t xs = remove1 t (take i xs @ t # drop (Suc i) xs)"
        using xs by simp
      also have "\<dots> = take i xs @ drop (Suc i) xs"
        using "1.prems"(2) by (simp add: remove1_append)
      finally have "remove1 t xs = sliceDelete i xs"
        using lt by (simp add: sliceDelete_eq)
      with lt True mem show ?thesis by (subst removeLoop.simps) simp
    next
      case False
      have "take (Suc i) xs = take i xs @ [xs ! i]"
        using lt by (simp add: take_Suc_conv_app_nth)
      with False "1.prems" have "t \<notin> set (take (i + 1) xs)" by auto
      moreover have "i + 1 \<le> length xs" using lt by simp
      ultimately have "removeLoop (i + 1) t xs =
          (if t \<in> set xs then Returns (remove1 t xs) else Panics ''removing unknown tracer'')"
        using "1.IH" lt False by blast
      with lt False show ?thesis by (subst removeLoop.simps) simp
    qed
  qed
qed

text \<open>
  Claim C8. \<^verbatim>\<open>Remove\<close> of a Tracer that is not in the registry panics; \<^verbatim>\<open>Remove\<close>
  of a Tracer that is in it returns normally, and the registry it leaves is the old one
  with exactly one entry of that Tracer (the first) deleted and every other entry kept
  in place.
\<close>

theorem Remove_present_or_panics:
  "Remove tr t =
     (if t \<in> set (tracers tr)
      then Returns (tr\<lparr>tracers := remove1 t (tracers tr)\<rparr>)
      else Panics ''removing unknown tracer'')"
  by (simp add: Remove_def removeLoop_remove1)

theorem Remove_present_or_panics_witness:
  "Remove \<lparr>tracers = [3, 5, 7]\<rparr> 5 = Returns \<lparr>tracers = [3, 7]\<rparr> \<and>
   Remove \<lparr>tracers = [3, 5, 7]\<rparr> 4 = Panics ''removing unknown tracer''"
  using Remove_present_or_panics [of "\<lparr>tracers = [3, 5, 7]\<rparr>" 5]
    Remove_present_or_panics [of "\<lparr>tracers = [3, 5, 7]\<rparr>" 4]
  by simp

section \<open>Properties of the propagation codec\<close>

lemma below_16_cases:
  "(d::nat) < 16 \<Longrightarrow> d \<in> set [0, 1, 2, 3, 4, 5, 6, 7, 8, 9, 10, 11, 12, 13, 14, 15]"
  by (simp only: set_simps insert_iff empty_iff) presburger

lemma digitValue_digits: "d < 16 \<Longrightarrow> digitValue (digits ! d) = Some d"
proof -
  assume "d < 16"
  then have "d \<in> set [0, 1, 2, 3, 4, 5, 6, 7, 8, 9, 10, 11, 12, 13, 14, 15]"
    by (rule below_16_cases)
  moreover have "list_all (\<lambda>d. digitValue (digits ! d) = Some d)
      [0, 1, 2, 3, 4, 5, 6, 7, 8, 9, 10, 11, 12, 13, 14, 15]"
    by (simp add: digits_def digitValue_def)
  ultimately show ?thesis by (simp only: list_all_iff)
qed

lemma parseLoop_append:
  "parseLoop n (s @ r) = (case parseLoop n s of Inl e \<Rightarrow> Inl e | Inr m \<Rightarrow> parseLoop m r)"
  by (induction s arbitrary: n) (auto split: option.splits)

lemma parseLoop_formatBits: "u < 2 ^ 64 \<Longrightarrow> parseLoop 0 (formatBits u) = Inr u"
proof (induction u rule: formatBits.induct)
  case (1 u)
  show ?case
  proof (cases "16 \<le> u")
    case False
    then show ?thesis using "1.prems"
      by (subst formatBits.simps) (simp add: digitValue_digits cutoff_def maxVal_def)
  next
    case True
    have lt: "u div 16 < 2 ^ 64" using "1.prems" by simp
    have ih: "parseLoop 0 (formatBits (u div 16)) = Inr (u div 16)"
      using "1.IH" True lt by simp
    have c: "u div 16 < cutoff" using "1.prems" by (simp add: cutoff_def)
    have m: "\<not> maxVal < u div 16 * 16 + u mod 16" using "1.prems" by (simp add: maxVal_def)
    show ?thesis using True ih c m
      by (subst formatBits.simps) (simp add: parseLoop_append digitValue_digits)
  qed
qed

lemma formatBits_nonempty: "formatBits u \<noteq> []"
  by (subst formatBits.simps) simp

lemma ParseUint_FormatUint: "ParseUint (FormatUint w) = Inr w"
proof -
  have "unat w < 2 ^ 64" using unsigned_less [of w] by simp
  then have "parseLoop 0 (formatBits (unat w)) = Inr (unat w)" by (rule parseLoop_formatBits)
  moreover have "length (formatBits (unat w)) \<noteq> 0" using formatBits_nonempty by simp
  ultimately show ?thesis by (simp add: ParseUint_def FormatUint_def)
qed

lemmas codec_eval =
  FormatUint_def formatBits.simps digits_def ParseUint_def digitValue_def cutoff_def maxVal_def
  asciiToLower_def lowerByte_def HasPrefix_def TrimPrefix_def
  prefixTracerState_def prefixBaggage_def prefixShadow_def
  fieldNameTraceID_def fieldNameSpanID_def fieldNameShadowType_def
  TextMapCarrier_def Set_entry_def injectContext_def injectBaggage_def injectShadow_def
  Extract_def extractHandler_def extractShadow_def getShadowTracer_def zeroSpanContext_def

lemma fieldNames_distinct:
  "fieldNameTraceID \<noteq> fieldNameSpanID"
  "fieldNameTraceID \<noteq> fieldNameShadowType"
  "fieldNameSpanID \<noteq> fieldNameShadowType"
  "fieldNameSpanID \<noteq> fieldNameTraceID"
  "fieldNameShadowType \<noteq> fieldNameTraceID"
  "fieldNameShadowType \<noteq> fieldNameSpanID"
  by (simp_all add: fieldNameTraceID_def fieldNameSpanID_def fieldNameShadowType_def)

lemma extractHandler_TraceID:
  "ToLower k = fieldNameTraceID \<Longrightarrow>
   extractHandler ToLower st k v =
     (case ParseUint v of
        Inl e \<Rightarrow> Inl ErrSpanContextCorrupted
      | Inr n \<Rightarrow> Inr (st\<lparr>sc := (sc st)\<lparr>TraceID := n\<rparr>\<rparr>))"
  by (simp add: extractHandler_def)

lemma extractHandler_SpanID:
  "ToLower k = fieldNameSpanID \<Longrightarrow>
   extractHandler ToLower st k v =
     (case ParseUint v of
        Inl e \<Rightarrow> Inl ErrSpanContextCorrupted
      | Inr n \<Rightarrow> Inr (st\<lparr>sc := (sc st)\<lparr>SpanID := n\<rparr>\<rparr>))"
  using fieldNames_distinct(1) by (simp add: extractHandler_def)

lemma extractHandler_other:
  "ToLower k \<noteq> fieldNameTraceID \<Longrightarrow> ToLower k \<noteq> fieldNameSpanID \<Longrightarrow>
   \<exists>st'. extractHandler ToLower st k v = Inr st' \<and>
         TraceID (sc st') = TraceID (sc st) \<and> SpanID (sc st') = SpanID (sc st)"
  by (simp add: extractHandler_def Let_def)

lemma extractHandler_error:
  "extractHandler ToLower st k v = Inl e \<Longrightarrow> e = ErrSpanContextCorrupted"
  by (auto simp: extractHandler_def Let_def split: if_splits sum.splits)

lemma ForeachKey_error:
  "ForeachKey kvs (extractHandler ToLower) st = Inl e \<Longrightarrow> e = ErrSpanContextCorrupted"
proof (induction kvs arbitrary: st)
  case Nil
  then show ?case by simp
next
  case (Cons kv kvs)
  obtain k v where kv: "kv = (k, v)" by (cases kv)
  show ?case
  proof (cases "extractHandler ToLower st k v")
    case (Inl e')
    with Cons.prems kv show ?thesis by (simp add: extractHandler_error)
  next
    case (Inr st')
    with Cons.prems kv have "ForeachKey kvs (extractHandler ToLower) st' = Inl e" by simp
    then show ?thesis by (rule Cons.IH)
  qed
qed

lemma extractHandler_unparsable:
  "ToLower k = fieldNameTraceID \<or> ToLower k = fieldNameSpanID \<Longrightarrow> ParseUint v = Inl e \<Longrightarrow>
   extractHandler ToLower st k v = Inl ErrSpanContextCorrupted"
  by (auto simp: extractHandler_TraceID extractHandler_SpanID)

lemma ForeachKey_unparsable:
  "(k, v) \<in> set kvs \<Longrightarrow> ToLower k = fieldNameTraceID \<or> ToLower k = fieldNameSpanID \<Longrightarrow>
   ParseUint v = Inl e \<Longrightarrow> \<exists>err. ForeachKey kvs (extractHandler ToLower) st = Inl err"
proof (induction kvs arbitrary: st)
  case Nil
  then show ?case by simp
next
  case (Cons kv kvs)
  obtain k' v' where kv: "kv = (k', v')" by (cases kv)
  show ?case
  proof (cases "extractHandler ToLower st k' v'")
    case (Inl e')
    with kv show ?thesis by simp
  next
    case (Inr st')
    have "(k', v') \<noteq> (k, v)"
      using Inr extractHandler_unparsable [where ToLower = ToLower and k = k and st = st, OF Cons.prems(2,3)] by auto
    with Cons.prems(1) kv have "(k, v) \<in> set kvs" by auto
    then have "\<exists>err. ForeachKey kvs (extractHandler ToLower) st' = Inl err"
      using Cons.prems(2,3) by (rule Cons.IH)
    with Inr kv show ?thesis by simp
  qed
qed

lemma ForeachKey_zero_ids:
  "list_all (\<lambda>(k, v). ToLower k = fieldNameTraceID \<or> ToLower k = fieldNameSpanID \<longrightarrow>
      ParseUint v = Inr 0) kvs \<Longrightarrow>
   TraceID (sc st) = 0 \<Longrightarrow> SpanID (sc st) = 0 \<Longrightarrow>
   \<exists>st'. ForeachKey kvs (extractHandler ToLower) st = Inr st' \<and>
         TraceID (sc st') = 0 \<and> SpanID (sc st') = 0"
proof (induction kvs arbitrary: st)
  case Nil
  then show ?case by simp
next
  case (Cons kv kvs)
  obtain k v where kv: "kv = (k, v)" by (cases kv)
  have rest: "list_all (\<lambda>(k, v). ToLower k = fieldNameTraceID \<or> ToLower k = fieldNameSpanID \<longrightarrow>
      ParseUint v = Inr 0) kvs"
    using Cons.prems(1) by simp
  have "\<exists>st1. extractHandler ToLower st k v = Inr st1 \<and> TraceID (sc st1) = 0 \<and> SpanID (sc st1) = 0"
  proof (cases "ToLower k = fieldNameTraceID \<or> ToLower k = fieldNameSpanID")
    case True
    with Cons.prems(1) kv have p: "ParseUint v = Inr 0" by auto
    from True show ?thesis
    proof
      assume "ToLower k = fieldNameTraceID"
      then show ?thesis using p Cons.prems(3) by (simp add: extractHandler_TraceID)
    next
      assume "ToLower k = fieldNameSpanID"
      then show ?thesis using p Cons.prems(2) by (simp add: extractHandler_SpanID)
    qed
  next
    case False
    then show ?thesis
      using extractHandler_other [where k = k and st = st and v = v] Cons.prems(2,3) by auto
  qed
  then obtain st1 where st1: "extractHandler ToLower st k v = Inr st1"
    "TraceID (sc st1) = 0" "SpanID (sc st1) = 0" by blast
  from Cons.IH [OF rest st1(2,3)] st1(1) kv show ?case by simp
qed

lemma zeroState_ids:
  "TraceID (sc \<lparr>sc = zeroSpanContext, shadowType = [], shadowCarrier = []\<rparr>) = 0"
  "SpanID (sc \<lparr>sc = zeroSpanContext, shadowType = [], shadowCarrier = []\<rparr>) = 0"
  by (simp_all add: zeroSpanContext_def)

text \<open>
  Claim C5. For a carrier that \<^verbatim>\<open>Extract\<close> reads as a text map, in the TextMap or
  HTTPHeaders format: when some entry has a key that \<^verbatim>\<open>strings.ToLower\<close> maps to the
  trace-id or the span-id field name and a value that \<^verbatim>\<open>strconv.ParseUint(v, 16, 64)\<close>
  rejects, \<^verbatim>\<open>Extract\<close> returns the noop context, which is a usable context and not
  nil, together with \<^verbatim>\<open>ErrSpanContextCorrupted\<close>. This holds wherever the entry
  stands in the iteration, whatever the other entries are, and whatever
  \<^verbatim>\<open>strings.ToLower\<close> does to any key.
\<close>

theorem Extract_unparsable_id:
  assumes "fmt = TextMap \<or> fmt = HTTPHeaders"
    and "isTextMapReader c"
    and "(k, v) \<in> set (entries c)"
    and "ToLower k = fieldNameTraceID \<or> ToLower k = fieldNameSpanID"
    and "ParseUint v = Inl e"
  shows "Extract ToLower t fmt c = (noopSpanContext, Some ErrSpanContextCorrupted)"
proof -
  obtain err where err: "ForeachKey (entries c) (extractHandler ToLower)
      \<lparr>sc = zeroSpanContext, shadowType = [], shadowCarrier = []\<rparr> = Inl err"
    using ForeachKey_unparsable [where ToLower = ToLower and k = k, OF assms(3,4,5)] by blast
  then have "err = ErrSpanContextCorrupted" by (rule ForeachKey_error)
  with err assms(1,2) show ?thesis by (auto simp: Extract_def)
qed

theorem Extract_unparsable_id_witness:
  "Extract asciiToLower \<lparr>tracerAddr = 7, forceRealSpans = False, shadowTracer = None\<rparr> HTTPHeaders
     (TextMapCarrier [(''crdb-baggage-k'', ''v''), (''Crdb-Tracer-Spanid'', ''12xz''),
        (''crdb-tracer-traceid'', ''1'')]) =
   (noopSpanContext, Some ErrSpanContextCorrupted)"
proof -
  have key: "asciiToLower ''Crdb-Tracer-Spanid'' = fieldNameTraceID \<or>
      asciiToLower ''Crdb-Tracer-Spanid'' = fieldNameSpanID"
    by (simp add: codec_eval)
  have val: "ParseUint ''12xz'' = Inl ErrSyntax"
    by (simp add: codec_eval)
  show ?thesis
    using Extract_unparsable_id
      [where fmt = HTTPHeaders and ToLower = asciiToLower
        and k = "''Crdb-Tracer-Spanid''" and v = "''12xz''"
        and c = "TextMapCarrier [(''crdb-baggage-k'', ''v''), (''Crdb-Tracer-Spanid'', ''12xz''),
          (''crdb-tracer-traceid'', ''1'')]", OF _ _ _ key val]
    by (simp add: TextMapCarrier_def)
qed

text \<open>
  Claim C6. For a carrier read as a text map, in the TextMap or HTTPHeaders format,
  that has no entry whose key \<^verbatim>\<open>strings.ToLower\<close> maps to the trace-id or the span-id
  field name (so in particular for a carrier with no recognized key at all),
  \<^verbatim>\<open>Extract\<close> returns the noop context and a nil error. The keys are judged as the
  code judges them, after \<^verbatim>\<open>strings.ToLower\<close>, whatever that function does to a key
  outside ASCII: a key it maps to a field name is an entry of that field.
\<close>

theorem Extract_no_ids:
  assumes "fmt = TextMap \<or> fmt = HTTPHeaders"
    and "isTextMapReader c"
    and "\<forall>(k, v) \<in> set (entries c). ToLower k \<noteq> fieldNameTraceID \<and> ToLower k \<noteq> fieldNameSpanID"
  shows "Extract ToLower t fmt c = (noopSpanContext, None)"
proof -
  have "list_all (\<lambda>(k, v). ToLower k = fieldNameTraceID \<or> ToLower k = fieldNameSpanID \<longrightarrow>
      ParseUint v = Inr 0) (entries c)"
    using assms(3) by (auto simp: list_all_iff)
  from ForeachKey_zero_ids [OF this zeroState_ids]
  obtain st' where "ForeachKey (entries c) (extractHandler ToLower)
      \<lparr>sc = zeroSpanContext, shadowType = [], shadowCarrier = []\<rparr> = Inr st'"
    "TraceID (sc st') = 0" "SpanID (sc st') = 0" by blast
  with assms(1,2) show ?thesis by (auto simp: Extract_def)
qed

theorem Extract_no_ids_witness:
  "Extract asciiToLower \<lparr>tracerAddr = 7, forceRealSpans = False, shadowTracer = None\<rparr> TextMap
     (TextMapCarrier [(''crdb-baggage-k'', ''v''), (''content-type'', ''text'')]) =
   (noopSpanContext, None)"
  using Extract_no_ids
    [where fmt = TextMap and ToLower = asciiToLower
      and c = "TextMapCarrier [(''crdb-baggage-k'', ''v''), (''content-type'', ''text'')]"]
  by (simp add: codec_eval)

text \<open>
  Claim C10. For a carrier read as a text map, in the TextMap or HTTPHeaders format,
  in which every trace-id entry and every span-id entry (every entry whose key
  \<^verbatim>\<open>strings.ToLower\<close> maps to one of the two field names, whatever that function
  does outside ASCII) has a value that parses to zero
  (the keys present with the value \<^verbatim>\<open>"0"\<close> included), \<^verbatim>\<open>Extract\<close> returns the noop
  context and a nil error, as it does when the keys are absent; the baggage entries of
  the carrier are not returned.
\<close>

theorem Extract_zero_ids:
  assumes "fmt = TextMap \<or> fmt = HTTPHeaders"
    and "isTextMapReader c"
    and "\<forall>(k, v) \<in> set (entries c).
           ToLower k = fieldNameTraceID \<or> ToLower k = fieldNameSpanID \<longrightarrow> ParseUint v = Inr 0"
  shows "Extract ToLower t fmt c = (noopSpanContext, None)"
proof -
  have "list_all (\<lambda>(k, v). ToLower k = fieldNameTraceID \<or> ToLower k = fieldNameSpanID \<longrightarrow>
      ParseUint v = Inr 0) (entries c)"
    using assms(3) by (auto simp: list_all_iff)
  from ForeachKey_zero_ids [OF this zeroState_ids]
  obtain st' where "ForeachKey (entries c) (extractHandler ToLower)
      \<lparr>sc = zeroSpanContext, shadowType = [], shadowCarrier = []\<rparr> = Inr st'"
    "TraceID (sc st') = 0" "SpanID (sc st') = 0" by blast
  with assms(1,2) show ?thesis by (auto simp: Extract_def)
qed

theorem Extract_zero_ids_witness:
  "Extract asciiToLower \<lparr>tracerAddr = 7, forceRealSpans = False, shadowTracer = None\<rparr> TextMap
     (TextMapCarrier [(''crdb-tracer-traceid'', ''0''), (''crdb-baggage-k'', ''v''),
        (''crdb-tracer-spanid'', ''000'')]) =
   (noopSpanContext, None)"
  using Extract_zero_ids
    [where fmt = TextMap and ToLower = asciiToLower
      and c = "TextMapCarrier [(''crdb-tracer-traceid'', ''0''), (''crdb-baggage-k'', ''v''),
        (''crdb-tracer-spanid'', ''000'')]"]
  by (simp add: codec_eval)

text \<open>
  A key outside ASCII is an entry of the trace id as soon as \<^verbatim>\<open>strings.ToLower\<close> maps
  it to the field name, as it does for a key spelt with the capital dotted I (U+0130):
  the carrier of that single entry gives a real context.
\<close>

lemma Extract_key_lowered_to_TraceID:
  assumes "ToLower k = fieldNameTraceID"
  shows "Extract ToLower t TextMap (TextMapCarrier [(k, ''5'')]) =
     (spanContextPtr (zeroSpanContext\<lparr>TraceID := 5\<rparr>), None)"
proof -
  have "ParseUint ''5'' = Inr 5"
    by (simp add: ParseUint_def digitValue_def cutoff_def maxVal_def)
  then show ?thesis
    using assms
    by (simp add: Extract_def TextMapCarrier_def extractHandler_TraceID extractShadow_def
        zeroSpanContext_def)
qed

text \<open>
  Claim C9. \<^verbatim>\<open>Inject\<close> of the noop context returns nil and leaves the carrier as it
  was, for every format and every carrier: the test for the noop context comes before
  the checks of the format and of the carrier, so neither \<^verbatim>\<open>ErrUnsupportedFormat\<close> nor
  \<^verbatim>\<open>ErrInvalidCarrier\<close> is reported for it.
\<close>

theorem Inject_noop:
  "Inject t noopSpanContext fmt c = (None, c)"
  by simp

theorem Inject_noop_witness:
  "Inject \<lparr>tracerAddr = 7, forceRealSpans = False, shadowTracer = None\<rparr> noopSpanContext
     OtherFormat \<lparr>entries = [(''k'', ''v'')], isTextMapWriter = False, isTextMapReader = False\<rparr> =
   (None, \<lparr>entries = [(''k'', ''v'')], isTextMapWriter = False, isTextMapReader = False\<rparr>)"
  using Inject_noop [of "\<lparr>tracerAddr = 7, forceRealSpans = False, shadowTracer = None\<rparr>"
      OtherFormat "\<lparr>entries = [(''k'', ''v'')], isTextMapWriter = False, isTextMapReader = False\<rparr>"]
  by simp

lemma asciiToLower_lowersASCII: "lowersASCII asciiToLower"
  by (simp add: lowersASCII_def)

lemma lowersASCII_fieldNames:
  assumes "lowersASCII ToLower"
  shows "ToLower fieldNameTraceID = fieldNameTraceID"
    and "ToLower fieldNameSpanID = fieldNameSpanID"
proof -
  have "isASCII fieldNameTraceID" "asciiToLower fieldNameTraceID = fieldNameTraceID"
    by (simp_all add: isASCII_def asciiToLower_def lowerByte_def fieldNameTraceID_def
        prefixTracerState_def)
  with assms show "ToLower fieldNameTraceID = fieldNameTraceID"
    by (simp add: lowersASCII_def)
  have "isASCII fieldNameSpanID" "asciiToLower fieldNameSpanID = fieldNameSpanID"
    by (simp_all add: isASCII_def asciiToLower_def lowerByte_def fieldNameSpanID_def
        prefixTracerState_def)
  with assms show "ToLower fieldNameSpanID = fieldNameSpanID"
    by (simp add: lowersASCII_def)
qed

lemma lowersASCII_baggage_key:
  assumes "lowersASCII ToLower" and "isASCII k" and "asciiToLower k = k"
  shows "ToLower (prefixBaggage @ k) = prefixBaggage @ k"
proof -
  have "isASCII prefixBaggage" "asciiToLower prefixBaggage = prefixBaggage"
    by (simp_all add: isASCII_def asciiToLower_def lowerByte_def prefixBaggage_def)
  with assms(2,3) have "isASCII (prefixBaggage @ k)"
    "asciiToLower (prefixBaggage @ k) = prefixBaggage @ k"
    by (simp_all add: isASCII_def asciiToLower_def)
  with assms(1) show ?thesis by (simp add: lowersASCII_def)
qed

lemma HasPrefix_append: "HasPrefix (p @ s) p"
  by (simp add: HasPrefix_def)

lemma TrimPrefix_append: "TrimPrefix (p @ s) p = s"
  by (simp add: TrimPrefix_def HasPrefix_def)

lemma baggage_key_not_field:
  "prefixBaggage @ b \<noteq> fieldNameTraceID"
  "prefixBaggage @ b \<noteq> fieldNameSpanID"
  "prefixBaggage @ b \<noteq> fieldNameShadowType"
  "fieldNameTraceID \<noteq> prefixBaggage @ b"
  "fieldNameSpanID \<noteq> prefixBaggage @ b"
  "fieldNameShadowType \<noteq> prefixBaggage @ b"
  by (simp_all add: prefixBaggage_def fieldNameTraceID_def fieldNameSpanID_def
      fieldNameShadowType_def prefixTracerState_def)

lemma extractHandler_baggage:
  "ToLower k = prefixBaggage @ b \<Longrightarrow>
   extractHandler ToLower st k v =
     Inr (st\<lparr>sc := (sc st)\<lparr>Baggage := AList.update b v (Baggage (sc st))\<rparr>\<rparr>)"
  by (simp add: extractHandler_def baggage_key_not_field HasPrefix_append TrimPrefix_append)

lemma entries_injectBaggage:
  "entries (injectBaggage bag c) =
     fold (\<lambda>kv m. AList.update (prefixBaggage @ fst kv) (snd kv) m) bag (entries c)"
  by (induction bag arbitrary: c) (auto simp: injectBaggage_def Set_entry_def)

lemma distinct_fold_update:
  "distinct (map fst m) \<Longrightarrow>
   distinct (map fst (fold (\<lambda>kv m. AList.update (prefixBaggage @ fst kv) (snd kv) m) bag m))"
  by (induction bag arbitrary: m) (simp_all add: distinct_update)

lemma map_of_baggageEntries: "map_of (map (\<lambda>kv. (prefixBaggage @ fst kv, snd kv)) bag) (prefixBaggage @ b) = map_of bag b"
  by (induction bag) auto

lemma map_of_baggageEntries_Some:
  "map_of (map (\<lambda>kv. (prefixBaggage @ fst kv, snd kv)) bag) key = Some v \<Longrightarrow>
   \<exists>b. key = prefixBaggage @ b \<and> (b, v) \<in> set bag"
  by (induction bag) (auto split: if_splits)

lemma map_of_fold_update:
  "distinct (map fst bag) \<Longrightarrow>
   map_of (fold (\<lambda>kv m. AList.update (prefixBaggage @ fst kv) (snd kv) m) bag m) =
     map_of m ++ map_of (map (\<lambda>kv. (prefixBaggage @ fst kv, snd kv)) bag)"
proof (induction bag arbitrary: m)
  case Nil
  then show ?case by simp
next
  case (Cons kv bag)
  have notin: "map_of (map (\<lambda>kv. (prefixBaggage @ fst kv, snd kv)) bag) (prefixBaggage @ fst kv) = None"
    using Cons.prems by (simp add: map_of_baggageEntries map_of_eq_None_iff)
  have "map_of (fold (\<lambda>kv m. AList.update (prefixBaggage @ fst kv) (snd kv) m) (kv # bag) m) =
      (map_of m)(prefixBaggage @ fst kv \<mapsto> snd kv) ++ map_of (map (\<lambda>kv. (prefixBaggage @ fst kv, snd kv)) bag)"
    using Cons.prems Cons.IH by (simp add: update_conv')
  also have "\<dots> = map_of m ++ map_of (map (\<lambda>kv. (prefixBaggage @ fst kv, snd kv)) (kv # bag))"
    using notin by (auto simp: map_add_def fun_eq_iff split: option.splits)
  finally show ?case .
qed

lemma ForeachKey_injected:
  assumes "\<forall>(k, v) \<in> set kvs.
             ToLower k = k \<and>
             (k = fieldNameTraceID \<and> ParseUint v = Inr a \<or>
              k = fieldNameSpanID \<and> ParseUint v = Inr b \<or>
              (\<exists>bk. k = prefixBaggage @ bk))"
    and "distinct (map fst kvs)"
  shows "\<exists>st'. ForeachKey kvs (extractHandler ToLower) st = Inr st' \<and>
           TraceID (sc st') = (if fieldNameTraceID \<in> fst ` set kvs then a else TraceID (sc st)) \<and>
           SpanID (sc st') = (if fieldNameSpanID \<in> fst ` set kvs then b else SpanID (sc st)) \<and>
           shadowType st' = shadowType st \<and>
           (\<forall>bk. map_of (Baggage (sc st')) bk =
              (case map_of kvs (prefixBaggage @ bk) of
                 Some v \<Rightarrow> Some v
               | None \<Rightarrow> map_of (Baggage (sc st)) bk))"
  using assms
proof (induction kvs arbitrary: st)
  case Nil
  then show ?case by simp
next
  case (Cons kv kvs)
  obtain k v where kv: "kv = (k, v)" by (cases kv)
  have rest: "\<forall>(k, v) \<in> set kvs.
             ToLower k = k \<and>
             (k = fieldNameTraceID \<and> ParseUint v = Inr a \<or>
              k = fieldNameSpanID \<and> ParseUint v = Inr b \<or>
              (\<exists>bk. k = prefixBaggage @ bk))"
    using Cons.prems(1) by simp
  have dist: "distinct (map fst kvs)" and fresh: "k \<notin> fst ` set kvs"
    using Cons.prems(2) kv by auto
  have none: "map_of kvs k = None"
    using fresh by (simp add: map_of_eq_None_iff)
  have fixed: "ToLower k = k" using Cons.prems(1) kv by simp
  from Cons.prems(1) kv consider
      (trace) "k = fieldNameTraceID" "ParseUint v = Inr a"
    | (span) "k = fieldNameSpanID" "ParseUint v = Inr b"
    | (bag) bk where "k = prefixBaggage @ bk"
    by auto
  then show ?case
  proof cases
    case trace
    let ?st1 = "st\<lparr>sc := (sc st)\<lparr>TraceID := a\<rparr>\<rparr>"
    have h: "extractHandler ToLower st k v = Inr ?st1"
      using trace fixed by (simp add: extractHandler_TraceID)
    from Cons.IH [OF rest dist, of ?st1] obtain st' where
      st': "ForeachKey kvs (extractHandler ToLower) ?st1 = Inr st'"
        "TraceID (sc st') = (if fieldNameTraceID \<in> fst ` set kvs then a else TraceID (sc ?st1))"
        "SpanID (sc st') = (if fieldNameSpanID \<in> fst ` set kvs then b else SpanID (sc ?st1))"
        "shadowType st' = shadowType ?st1"
        "\<forall>bk. map_of (Baggage (sc st')) bk =
              (case map_of kvs (prefixBaggage @ bk) of
                 Some v \<Rightarrow> Some v
               | None \<Rightarrow> map_of (Baggage (sc ?st1)) bk)"
      by blast
    have "ForeachKey (kv # kvs) (extractHandler ToLower) st = Inr st'"
      using kv h st'(1) by simp
    moreover have "TraceID (sc st') = a" using st'(2) by simp
    moreover have "SpanID (sc st') =
        (if fieldNameSpanID \<in> fst ` set (kv # kvs) then b else SpanID (sc st))"
      using st'(3) kv trace(1) fieldNames_distinct(1) by auto
    moreover have "shadowType st' = shadowType st" using st'(4) by simp
    moreover have "\<forall>bk. map_of (Baggage (sc st')) bk =
              (case map_of (kv # kvs) (prefixBaggage @ bk) of
                 Some v \<Rightarrow> Some v
               | None \<Rightarrow> map_of (Baggage (sc st)) bk)"
      using st'(5) kv trace(1) baggage_key_not_field(1) by (auto cong: option.case_cong)
    ultimately show ?thesis using kv trace(1) by auto
  next
    case span
    let ?st1 = "st\<lparr>sc := (sc st)\<lparr>SpanID := b\<rparr>\<rparr>"
    have h: "extractHandler ToLower st k v = Inr ?st1"
      using span fixed by (simp add: extractHandler_SpanID)
    from Cons.IH [OF rest dist, of ?st1] obtain st' where
      st': "ForeachKey kvs (extractHandler ToLower) ?st1 = Inr st'"
        "TraceID (sc st') = (if fieldNameTraceID \<in> fst ` set kvs then a else TraceID (sc ?st1))"
        "SpanID (sc st') = (if fieldNameSpanID \<in> fst ` set kvs then b else SpanID (sc ?st1))"
        "shadowType st' = shadowType ?st1"
        "\<forall>bk. map_of (Baggage (sc st')) bk =
              (case map_of kvs (prefixBaggage @ bk) of
                 Some v \<Rightarrow> Some v
               | None \<Rightarrow> map_of (Baggage (sc ?st1)) bk)"
      by blast
    have "ForeachKey (kv # kvs) (extractHandler ToLower) st = Inr st'"
      using kv h st'(1) by simp
    moreover have "SpanID (sc st') = b" using st'(3) by simp
    moreover have "TraceID (sc st') =
        (if fieldNameTraceID \<in> fst ` set (kv # kvs) then a else TraceID (sc st))"
      using st'(2) kv span(1) fieldNames_distinct(1) by auto
    moreover have "shadowType st' = shadowType st" using st'(4) by simp
    moreover have "\<forall>bk. map_of (Baggage (sc st')) bk =
              (case map_of (kv # kvs) (prefixBaggage @ bk) of
                 Some v \<Rightarrow> Some v
               | None \<Rightarrow> map_of (Baggage (sc st)) bk)"
      using st'(5) kv span(1) baggage_key_not_field(2) by (auto cong: option.case_cong)
    ultimately show ?thesis using kv span(1) by auto
  next
    case bag
    let ?st1 = "st\<lparr>sc := (sc st)\<lparr>Baggage := AList.update bk v (Baggage (sc st))\<rparr>\<rparr>"
    have low: "ToLower k = prefixBaggage @ bk"
      using bag fixed by simp
    have h: "extractHandler ToLower st k v = Inr ?st1"
      using low by (rule extractHandler_baggage)
    from Cons.IH [OF rest dist, of ?st1] obtain st' where
      st': "ForeachKey kvs (extractHandler ToLower) ?st1 = Inr st'"
        "TraceID (sc st') = (if fieldNameTraceID \<in> fst ` set kvs then a else TraceID (sc ?st1))"
        "SpanID (sc st') = (if fieldNameSpanID \<in> fst ` set kvs then b else SpanID (sc ?st1))"
        "shadowType st' = shadowType ?st1"
        "\<forall>bk'. map_of (Baggage (sc st')) bk' =
              (case map_of kvs (prefixBaggage @ bk') of
                 Some v \<Rightarrow> Some v
               | None \<Rightarrow> map_of (Baggage (sc ?st1)) bk')"
      by blast
    have "ForeachKey (kv # kvs) (extractHandler ToLower) st = Inr st'"
      using kv h st'(1) by simp
    moreover have "TraceID (sc st') =
        (if fieldNameTraceID \<in> fst ` set (kv # kvs) then a else TraceID (sc st))"
      using st'(2) kv bag(1) baggage_key_not_field(1) [symmetric] by auto
    moreover have "SpanID (sc st') =
        (if fieldNameSpanID \<in> fst ` set (kv # kvs) then b else SpanID (sc st))"
      using st'(3) kv bag(1) baggage_key_not_field(2) [symmetric] by auto
    moreover have "shadowType st' = shadowType st" using st'(4) by simp
    moreover have "\<forall>bk'. map_of (Baggage (sc st')) bk' =
              (case map_of (kv # kvs) (prefixBaggage @ bk') of
                 Some v \<Rightarrow> Some v
               | None \<Rightarrow> map_of (Baggage (sc st)) bk')"
    proof
      fix bk'
      show "map_of (Baggage (sc st')) bk' =
              (case map_of (kv # kvs) (prefixBaggage @ bk') of
                 Some v \<Rightarrow> Some v
               | None \<Rightarrow> map_of (Baggage (sc st)) bk')"
      proof (cases "bk' = bk")
        case True
        then show ?thesis using st'(5) kv bag(1) none by (simp add: update_conv' cong: option.case_cong)
      next
        case False
        then show ?thesis using st'(5) kv bag(1) by (simp add: update_conv' cong: option.case_cong)
      qed
    qed
    ultimately show ?thesis by blast
  qed
qed

lemma injectBaggage_eq:
  "injectBaggage bag c =
     c\<lparr>entries := fold (\<lambda>kv m. AList.update (prefixBaggage @ fst kv) (snd kv) m) bag (entries c)\<rparr>"
  unfolding injectBaggage_def
  by (induction bag arbitrary: c) (simp_all add: Set_entry_def case_prod_beta)

lemma base_entries:
  "AList.update fieldNameSpanID s (AList.update fieldNameTraceID r []) =
     [(fieldNameTraceID, r), (fieldNameSpanID, s)]"
  using fieldNames_distinct(1) by simp

lemma Inject_TextMapCarrier:
  assumes "fmt = TextMap \<or> fmt = HTTPHeaders" and "shadowTr ctx = None"
  shows "Inject t (spanContextPtr ctx) fmt (TextMapCarrier []) =
     (None, TextMapCarrier
        (fold (\<lambda>kv m. AList.update (prefixBaggage @ fst kv) (snd kv) m) (Baggage ctx)
           [(fieldNameTraceID, FormatUint (TraceID ctx)),
            (fieldNameSpanID, FormatUint (SpanID ctx))]))"
proof -
  have w: "isTextMapWriter (TextMapCarrier [])" by (simp add: TextMapCarrier_def)
  have "injectContext ctx fmt (TextMapCarrier []) =
     (None, TextMapCarrier
        (fold (\<lambda>kv m. AList.update (prefixBaggage @ fst kv) (snd kv) m) (Baggage ctx)
           [(fieldNameTraceID, FormatUint (TraceID ctx)),
            (fieldNameSpanID, FormatUint (SpanID ctx))]))"
    using assms(2)
    by (simp add: injectContext_def injectBaggage_eq Set_entry_def TextMapCarrier_def
        base_entries del: AList.update.simps)
  with assms(1) w show ?thesis by auto
qed

text \<open>
  Claim C1, as amended. Take a real span context with no shadow tracer attached, whose
  trace id and span id are not both zero and whose baggage keys are unchanged by
  \<^verbatim>\<open>strings.ToLower\<close> when it is applied to the carrier key that \<^verbatim>\<open>Inject\<close> writes
  for them (the baggage prefix followed by the key; by \<open>lowersASCII_baggage_key\<close>
  every ASCII key with no upper-case letter is such a key), and inject it into an empty
  text-map carrier in the TextMap or HTTPHeaders format. Of \<^verbatim>\<open>strings.ToLower\<close> the
  theorem uses only how it treats ASCII text. Then \<^verbatim>\<open>Inject\<close> returns nil, and \<^verbatim>\<open>Extract\<close> of that carrier,
  in whatever order the carrier's entries are iterated, by any Tracer and in either
  format, returns a nil error and a real context with the same trace id, the same span
  id and the same baggage map. (The baggage of the context is a Go map: its entries have
  distinct keys.)
\<close>

theorem Extract_Inject_roundtrip:
  assumes fmt: "fmt = TextMap \<or> fmt = HTTPHeaders"
    and fmt': "fmt' = TextMap \<or> fmt' = HTTPHeaders"
    and noshadow: "shadowTr ctx = None"
    and ids: "TraceID ctx \<noteq> 0 \<or> SpanID ctx \<noteq> 0"
    and dist: "distinct (map fst (Baggage ctx))"
    and contract: "lowersASCII ToLower"
    and lower: "\<forall>(k, v) \<in> set (Baggage ctx).
                  ToLower (prefixBaggage @ k) = prefixBaggage @ k"
    and inj: "Inject t (spanContextPtr ctx) fmt (TextMapCarrier []) = (err, c)"
    and perm: "mset kvs = mset (entries c)"
  shows "err = None \<and>
    (\<exists>ctx'. Extract ToLower t' fmt' (c\<lparr>entries := kvs\<rparr>) = (spanContextPtr ctx', None) \<and>
       TraceID ctx' = TraceID ctx \<and> SpanID ctx' = SpanID ctx \<and>
       map_of (Baggage ctx') = map_of (Baggage ctx))"
proof -
  let ?base = "[(fieldNameTraceID, FormatUint (TraceID ctx)),
               (fieldNameSpanID, FormatUint (SpanID ctx))]"
  let ?E = "fold (\<lambda>kv m. AList.update (prefixBaggage @ fst kv) (snd kv) m) (Baggage ctx) ?base"
  let ?bag = "map_of (map (\<lambda>kv. (prefixBaggage @ fst kv, snd kv)) (Baggage ctx))"
  from inj Inject_TextMapCarrier [OF fmt noshadow, of t]
  have err: "err = None" and c: "c = TextMapCarrier ?E" by simp_all
  have E: "entries c = ?E" using c by (simp add: TextMapCarrier_def)
  have reader: "isTextMapReader (c\<lparr>entries := kvs\<rparr>)" using c by (simp add: TextMapCarrier_def)
  have distE: "distinct (map fst ?E)"
    using fieldNames_distinct(1) by (intro distinct_fold_update) simp
  have mapE: "map_of ?E = map_of ?base ++ ?bag"
    using dist by (rule map_of_fold_update)
  have permE: "mset kvs = mset ?E" using perm E by simp
  have "mset (map fst kvs) = mset (map fst ?E)"
    using arg_cong [OF permE, of "image_mset fst"] by simp
  then have distK: "distinct (map fst kvs)"
    using distE mset_eq_imp_distinct_iff by blast
  have "set kvs = set ?E" using permE by (rule mset_eq_setD)
  then have "map_of kvs = map_of ?E"
    using map_of_inject_set [OF distK distE] by blast
  then have mapK: "map_of kvs = map_of ?base ++ ?bag"
    using mapE by (rule trans)
  have bagT: "?bag fieldNameTraceID = None"
    using map_of_baggageEntries_Some [of "Baggage ctx" fieldNameTraceID] baggage_key_not_field(4)
    by (cases "?bag fieldNameTraceID") auto
  have bagS: "?bag fieldNameSpanID = None"
    using map_of_baggageEntries_Some [of "Baggage ctx" fieldNameSpanID] baggage_key_not_field(5)
    by (cases "?bag fieldNameSpanID") auto
  have keyT: "map_of kvs fieldNameTraceID = Some (FormatUint (TraceID ctx))"
    using fieldNames_distinct bagT by (simp add: mapK map_add_def)
  have keyS: "map_of kvs fieldNameSpanID = Some (FormatUint (SpanID ctx))"
    using fieldNames_distinct bagS by (simp add: mapK map_add_def)
  have inT: "fieldNameTraceID \<in> fst ` set kvs"
    using keyT by (metis map_of_eq_None_iff option.distinct(1))
  have inS: "fieldNameSpanID \<in> fst ` set kvs"
    using keyS by (metis map_of_eq_None_iff option.distinct(1))
  have shape1: "ToLower k = k \<and>
            (k = fieldNameTraceID \<and> ParseUint v = Inr (TraceID ctx) \<or>
             k = fieldNameSpanID \<and> ParseUint v = Inr (SpanID ctx) \<or>
             (\<exists>bk. k = prefixBaggage @ bk))"
    if kv: "(k, v) \<in> set kvs" for k v
  proof (cases "?bag k")
    case None
    have look: "map_of kvs k = Some v" using kv distK by simp
    then have "(map_of ?base ++ ?bag) k = Some v" by (simp only: mapK)
    with None have base: "map_of ?base k = Some v" by (simp add: map_add_def)
    have "k = fieldNameTraceID \<and> v = FormatUint (TraceID ctx) \<or>
          k = fieldNameSpanID \<and> v = FormatUint (SpanID ctx)"
      using base by (simp split: if_splits)
    then show ?thesis
      using lowersASCII_fieldNames [OF contract] by (auto simp: ParseUint_FormatUint)
  next
    case (Some v')
    then obtain b where b: "k = prefixBaggage @ b" "(b, v') \<in> set (Baggage ctx)"
      using map_of_baggageEntries_Some [of "Baggage ctx" k v'] by auto
    from lower b(2) have "ToLower (prefixBaggage @ b) = prefixBaggage @ b" by fast
    with b(1) show ?thesis by blast
  qed
  have shape: "\<forall>(k, v) \<in> set kvs. ToLower k = k \<and>
            (k = fieldNameTraceID \<and> ParseUint v = Inr (TraceID ctx) \<or>
             k = fieldNameSpanID \<and> ParseUint v = Inr (SpanID ctx) \<or>
             (\<exists>bk. k = prefixBaggage @ bk))"
    using shape1 by auto
  let ?st0 = "\<lparr>sc = zeroSpanContext, shadowType = [], shadowCarrier = []\<rparr>"
  from ForeachKey_injected [OF shape distK, of ?st0]
  obtain st' where run: "ForeachKey kvs (extractHandler ToLower) ?st0 = Inr st'"
    and runT: "TraceID (sc st') =
        (if fieldNameTraceID \<in> fst ` set kvs then TraceID ctx else TraceID (sc ?st0))"
    and runS: "SpanID (sc st') =
        (if fieldNameSpanID \<in> fst ` set kvs then SpanID ctx else SpanID (sc ?st0))"
    and runSh: "shadowType st' = shadowType ?st0"
    and runB: "\<forall>bk. map_of (Baggage (sc st')) bk =
        (case map_of kvs (prefixBaggage @ bk) of
           Some v \<Rightarrow> Some v
         | None \<Rightarrow> map_of (Baggage (sc ?st0)) bk)"
    by blast
  have st': "TraceID (sc st') = TraceID ctx" "SpanID (sc st') = SpanID ctx" "shadowType st' = []"
    using runT runS runSh inT inS by simp_all
  have stB: "map_of (Baggage (sc st')) bk = map_of kvs (prefixBaggage @ bk)" for bk
    using runB by (simp add: zeroSpanContext_def split: option.splits)
  have bag: "map_of (Baggage (sc st')) = map_of (Baggage ctx)"
  proof
    fix bk
    have "map_of ?base (prefixBaggage @ bk) = None"
      using baggage_key_not_field(1,2) [of bk] by simp
    then have "map_of kvs (prefixBaggage @ bk) = map_of (Baggage ctx) bk"
      by (simp add: mapK map_add_def map_of_baggageEntries split: option.splits)
    with stB show "map_of (Baggage (sc st')) bk = map_of (Baggage ctx) bk"
      by simp
  qed
  have "Extract ToLower t' fmt' (c\<lparr>entries := kvs\<rparr>) = (spanContextPtr (sc st'), None)"
    using fmt' reader run st' ids by (auto simp: Extract_def extractShadow_def)
  with err st'(1,2) bag show ?thesis by blast
qed

theorem Extract_Inject_roundtrip_witness:
  "Inject \<lparr>tracerAddr = 7, forceRealSpans = False, shadowTracer = None\<rparr>
      (spanContextPtr \<lparr>TraceID = 255, SpanID = 2, Baggage = [(''foo'', ''Bar'')],
         shadowTr = None, shadowCtx = None, recordingGroup = None,
         recordingType = NoRecording\<rparr>)
      TextMap (TextMapCarrier []) =
     (None, TextMapCarrier [(''crdb-tracer-traceid'', ''ff''), (''crdb-tracer-spanid'', ''2''),
        (''crdb-baggage-foo'', ''Bar'')]) \<and>
   (\<exists>ctx'. Extract asciiToLower \<lparr>tracerAddr = 8, forceRealSpans = False, shadowTracer = None\<rparr> HTTPHeaders
      (TextMapCarrier [(''crdb-baggage-foo'', ''Bar''), (''crdb-tracer-spanid'', ''2''),
        (''crdb-tracer-traceid'', ''ff'')]) = (spanContextPtr ctx', None) \<and>
     TraceID ctx' = 255 \<and> SpanID ctx' = 2 \<and> map_of (Baggage ctx') = map_of [(''foo'', ''Bar'')])"
proof -
  let ?ctx = "\<lparr>TraceID = 255, SpanID = 2, Baggage = [(''foo'', ''Bar'')],
         shadowTr = None, shadowCtx = None, recordingGroup = None,
         recordingType = NoRecording\<rparr>"
  let ?c = "TextMapCarrier [(''crdb-tracer-traceid'', ''ff''), (''crdb-tracer-spanid'', ''2''),
        (''crdb-baggage-foo'', ''Bar'')]"
  let ?kvs = "[(''crdb-baggage-foo'', ''Bar''), (''crdb-tracer-spanid'', ''2''),
        (''crdb-tracer-traceid'', ''ff'')]"
  have inj: "Inject \<lparr>tracerAddr = 7, forceRealSpans = False, shadowTracer = None\<rparr>
      (spanContextPtr ?ctx) TextMap (TextMapCarrier []) = (None, ?c)"
    by (simp add: codec_eval)
  have perm: "mset ?kvs = mset (entries ?c)"
    by (simp add: TextMapCarrier_def add_mset_commute)
  have key: "asciiToLower (prefixBaggage @ ''foo'') = prefixBaggage @ ''foo''"
    using lowersASCII_baggage_key [OF asciiToLower_lowersASCII, of "''foo''"]
    by (simp add: isASCII_def asciiToLower_def lowerByte_def)
  have low: "\<forall>(k, v) \<in> set (Baggage ?ctx).
      asciiToLower (prefixBaggage @ k) = prefixBaggage @ k"
    using key by simp
  have upd: "?c\<lparr>entries := ?kvs\<rparr> = TextMapCarrier ?kvs"
    by (simp add: TextMapCarrier_def)
  have "\<exists>ctx'. Extract asciiToLower \<lparr>tracerAddr = 8, forceRealSpans = False, shadowTracer = None\<rparr>
      HTTPHeaders (TextMapCarrier ?kvs) = (spanContextPtr ctx', None) \<and>
     TraceID ctx' = 255 \<and> SpanID ctx' = 2 \<and> map_of (Baggage ctx') = map_of [(''foo'', ''Bar'')]"
    using Extract_Inject_roundtrip
      [where fmt = TextMap and fmt' = HTTPHeaders and ctx = ?ctx and kvs = ?kvs
        and ToLower = asciiToLower
        and t' = "\<lparr>tracerAddr = 8, forceRealSpans = False, shadowTracer = None\<rparr>",
        OF _ _ _ _ _ asciiToLower_lowersASCII low inj perm]
    by (simp add: upd)
  with inj show ?thesis by blast
qed

text \<open>
  The round trip as the claim states it, for every real context, fails in two ways.
  \<^verbatim>\<open>Extract\<close> lower-cases every key, so the baggage key \<^verbatim>\<open>Foo\<close> comes back as
  \<^verbatim>\<open>foo\<close> and the baggage maps differ; and a context whose trace id and span id are
  both zero comes back as the noop context, which has no ids and no baggage. Every key
  of the two runs is ASCII, where \<^verbatim>\<open>strings.ToLower\<close> is \<^const>\<open>asciiToLower\<close>.
\<close>

theorem Extract_Inject_counterexample:
  "Inject \<lparr>tracerAddr = 7, forceRealSpans = False, shadowTracer = None\<rparr>
      (spanContextPtr \<lparr>TraceID = 1, SpanID = 2, Baggage = [(''Foo'', ''bar'')],
         shadowTr = None, shadowCtx = None, recordingGroup = None,
         recordingType = NoRecording\<rparr>)
      TextMap (TextMapCarrier []) =
     (None, TextMapCarrier [(''crdb-tracer-traceid'', ''1''), (''crdb-tracer-spanid'', ''2''),
        (''crdb-baggage-Foo'', ''bar'')]) \<and>
   Extract asciiToLower \<lparr>tracerAddr = 7, forceRealSpans = False, shadowTracer = None\<rparr> TextMap
      (TextMapCarrier [(''crdb-tracer-traceid'', ''1''), (''crdb-tracer-spanid'', ''2''),
        (''crdb-baggage-Foo'', ''bar'')]) =
     (spanContextPtr \<lparr>TraceID = 1, SpanID = 2, Baggage = [(''foo'', ''bar'')],
         shadowTr = None, shadowCtx = None, recordingGroup = None,
         recordingType = NoRecording\<rparr>, None) \<and>
   map_of [(''foo'', ''bar'')] ''Foo'' \<noteq> map_of [(''Foo'', ''bar'')] ''Foo'' \<and>
   Inject \<lparr>tracerAddr = 7, forceRealSpans = False, shadowTracer = None\<rparr>
      (spanContextPtr \<lparr>TraceID = 0, SpanID = 0, Baggage = [(''foo'', ''bar'')],
         shadowTr = None, shadowCtx = None, recordingGroup = None,
         recordingType = NoRecording\<rparr>)
      TextMap (TextMapCarrier []) =
     (None, TextMapCarrier [(''crdb-tracer-traceid'', ''0''), (''crdb-tracer-spanid'', ''0''),
        (''crdb-baggage-foo'', ''bar'')]) \<and>
   Extract asciiToLower \<lparr>tracerAddr = 7, forceRealSpans = False, shadowTracer = None\<rparr> TextMap
      (TextMapCarrier [(''crdb-tracer-traceid'', ''0''), (''crdb-tracer-spanid'', ''0''),
        (''crdb-baggage-foo'', ''bar'')]) = (noopSpanContext, None)"
  by (simp add: codec_eval)

section \<open>Properties of starting a span\<close>

lemma References_Apply: "References (Apply opt sso) = References sso @ optionReferences opt"
  by (cases opt) simp_all

lemma References_fold_Apply:
  "References (fold Apply opts sso) = References sso @ concat (map optionReferences opts)"
  by (induction opts arbitrary: sso) (simp_all add: References_Apply)

lemma referencesLoop_skip:
  "\<forall>opt \<in> set pre. \<not> realParentReference opt \<Longrightarrow>
   referencesLoop (concat (map optionReferences pre) @ rs) w = referencesLoop rs w"
proof (induction pre)
  case Nil
  then show ?case by simp
next
  case (Cons opt pre)
  then have ih: "referencesLoop (concat (map optionReferences pre) @ rs) w = referencesLoop rs w"
    by simp
  from Cons.prems have no: "\<not> realParentReference opt" by simp
  show ?case
  proof (cases opt)
    case (SpanReference ty ctx)
    with no ih show ?thesis by (cases ctx) auto
  qed (simp_all add: ih)
qed

lemma referencesLoop_parent:
  assumes "opts = pre @ SpanReference ty (spanContextPtr pc) # post"
    and "\<forall>opt \<in> set pre. \<not> realParentReference opt"
    and "ty = ChildOfRef \<or> ty = FollowsFromRef"
  shows "referencesLoop (References (fold Apply opts zeroStartSpanOptions)) w =
     (if recordingGroup pc \<noteq> None then
        Returns (\<lparr>parentType = ty, parentCtx = Some pc,
                  recGroup = recordingGroup pc, recType = recordingType pc\<rparr>, w)
      else if mapIndex (Baggage pc) Snowball \<noteq> [] then
        Returns (\<lparr>parentType = ty, parentCtx = Some pc,
                  recGroup = Some (heapTop w), recType = SnowballRecording\<rparr>,
                 w\<lparr>heapTop := Suc (heapTop w)\<rparr>)
      else
        Returns (\<lparr>parentType = ty, parentCtx = Some pc,
                  recGroup = None, recType = NoRecording\<rparr>, w))"
proof -
  have "References (fold Apply opts zeroStartSpanOptions) =
      concat (map optionReferences pre) @
      (ty, spanContextPtr pc) # concat (map optionReferences post)"
    using assms(1) by (simp add: References_fold_Apply zeroStartSpanOptions_def)
  then have "referencesLoop (References (fold Apply opts zeroStartSpanOptions)) w =
      referencesLoop ((ty, spanContextPtr pc) # concat (map optionReferences post)) w"
    using referencesLoop_skip [OF assms(2)] by simp
  then show ?thesis using assms(3) by (auto simp: newSpanGroup_def)
qed

lemma referencesLoop_no_parent:
  assumes "\<forall>opt \<in> set opts. \<not> realParentReference opt"
  shows "referencesLoop (References (fold Apply opts zeroStartSpanOptions)) w =
     Returns (noParentVars, w)"
  using referencesLoop_skip [OF assms, of "[]" w]
  by (simp add: References_fold_Apply zeroStartSpanOptions_def)

lemma singleNoopReference_iff:
  "singleNoopReference opts = (\<exists>ty. opts = [SpanReference ty noopSpanContext])"
proof (cases opts)
  case Nil
  then show ?thesis by (simp add: singleNoopReference_def)
next
  case (Cons opt rest)
  show ?thesis
  proof (cases rest)
    case Nil
    with Cons show ?thesis
      by (auto simp: singleNoopReference_def split: StartSpanOption.splits SpanContext.splits)
  next
    case (Cons opt' rest')
    with \<open>opts = opt # rest\<close> show ?thesis by (simp add: singleNoopReference_def)
  qed
qed

lemma fold_SetTag:
  "fold (\<lambda>(k, v) s'. SetTag s' k v) kvs s =
     s\<lparr>tags := fold (\<lambda>(k, v) m. AList.update k v m) kvs (tags s)\<rparr>"
  by (induction kvs arbitrary: s) (auto simp: SetTag_def)

lemma fold_SetTag_string:
  "fold (\<lambda>(k, v) s'. SetTag s' k (TagString v)) kvs s =
     s\<lparr>tags := fold (\<lambda>(k, v) m. AList.update k (TagString v) m) kvs (tags s)\<rparr>"
  by (induction kvs arbitrary: s) (auto simp: SetTag_def)

lemma initSpan_fields:
  "mu_recordingGroup (initSpan t w operationName sso) = None"
  "span_shadowTr (initSpan t w operationName sso) = None"
  "span_shadowSpan (initSpan t w operationName sso) = None"
  by (simp_all add: initSpan_def fold_SetTag zeroSpan_def Let_def)

lemma assignIDs_fields:
  "mu_recordingGroup (fst (assignIDs pv s w)) = mu_recordingGroup s"
  "mu_recordingType (fst (assignIDs pv s w)) = mu_recordingType s"
  "span_shadowTr (fst (assignIDs pv s w)) = span_shadowTr s"
  "span_shadowSpan (fst (assignIDs pv s w)) = span_shadowSpan s"
  "heapTop (snd (assignIDs pv s w)) = heapTop w"
  by (simp_all add: assignIDs_def randInt63_def split_beta Let_def split: option.splits)

lemma linkShadow_fields:
  "mu_recordingGroup (linkShadow pv sh s) = mu_recordingGroup s"
  "mu_recordingType (linkShadow pv sh s) = mu_recordingType s"
  "span_shadowTr s = None \<Longrightarrow> span_shadowTr (linkShadow pv sh s) = sh"
  "span_shadowSpan s = None \<Longrightarrow>
   map_option shadowSpanTracer (span_shadowSpan (linkShadow pv sh s)) = map_option shadowAddr sh"
  by (simp_all add: linkShadow_def linkShadowSpan_def split: option.splits)

lemma startRecording_fields:
  "mu_recordingGroup s = None \<Longrightarrow> mu_recordingGroup (startRecording pv s) = recGroup pv"
  "recGroup pv \<noteq> None \<Longrightarrow> mu_recordingType (startRecording pv s) = recType pv"
  "span_shadowTr (startRecording pv s) = span_shadowTr s"
  "span_shadowSpan (startRecording pv s) = span_shadowSpan s"
  by (auto simp: startRecording_def enableRecording_def split: option.splits)

lemma openNetTrace_fields:
  "mu_recordingGroup (openNetTrace nt operationName s) = mu_recordingGroup s"
  "mu_recordingType (openNetTrace nt operationName s) = mu_recordingType s"
  "span_shadowTr (openNetTrace nt operationName s) = span_shadowTr s"
  "span_shadowSpan (openNetTrace nt operationName s) = span_shadowSpan s"
  by (simp_all add: openNetTrace_def)

lemma copyParent_fields:
  "mu_recordingGroup (copyParent pv s) = mu_recordingGroup s"
  "mu_recordingType (copyParent pv s) = mu_recordingType s"
  "span_shadowTr (copyParent pv s) = span_shadowTr s"
  "span_shadowSpan (copyParent pv s) = span_shadowSpan s"
  by (simp_all add: copyParent_def Let_def split: option.splits)

lemma baggageToTags_fields:
  "mu_recordingGroup (baggageToTags nt sh s) = mu_recordingGroup s"
  "mu_recordingType (baggageToTags nt sh s) = mu_recordingType s"
  "span_shadowTr (baggageToTags nt sh s) = span_shadowTr s"
  "span_shadowSpan (baggageToTags nt sh s) = span_shadowSpan s"
  by (simp_all add: baggageToTags_def fold_SetTag_string)

lemma buildSpan_result:
  "\<exists>s w'. buildSpan t w operationName sso pv sh nt = (spanPtr s, w') \<and>
     mu_recordingGroup s = recGroup pv \<and>
     (recGroup pv \<noteq> None \<longrightarrow> mu_recordingType s = recType pv) \<and>
     span_shadowTr s = sh \<and>
     map_option shadowSpanTracer (span_shadowSpan s) = map_option shadowAddr sh \<and>
     heapTop w' = heapTop w"
proof -
  let ?ids = "assignIDs pv (initSpan t w operationName sso) w"
  let ?s = "baggageToTags nt sh (copyParent pv (openNetTrace nt operationName
      (startRecording pv (linkShadow pv sh (fst ?ids)))))"
  have "buildSpan t w operationName sso pv sh nt = (spanPtr ?s, snd ?ids)"
    by (simp add: buildSpan_def Let_def split_beta)
  moreover have "mu_recordingGroup ?s = recGroup pv"
    by (simp add: baggageToTags_fields copyParent_fields openNetTrace_fields
        startRecording_fields linkShadow_fields assignIDs_fields initSpan_fields)
  moreover have "recGroup pv \<noteq> None \<longrightarrow> mu_recordingType ?s = recType pv"
    by (simp add: baggageToTags_fields copyParent_fields openNetTrace_fields
        startRecording_fields)
  moreover have "span_shadowTr ?s = sh"
    by (simp add: baggageToTags_fields copyParent_fields openNetTrace_fields
        startRecording_fields linkShadow_fields assignIDs_fields initSpan_fields)
  moreover have "map_option shadowSpanTracer (span_shadowSpan ?s) = map_option shadowAddr sh"
    by (simp add: baggageToTags_fields copyParent_fields openNetTrace_fields
        startRecording_fields linkShadow_fields assignIDs_fields initSpan_fields)
  moreover have "heapTop (snd ?ids) = heapTop w"
    by (simp add: assignIDs_fields)
  ultimately show ?thesis by blast
qed

lemma real_parent_not_single_noop:
  assumes "opts = pre @ SpanReference ty (spanContextPtr pc) # post"
  shows "\<not> singleNoopReference opts"
proof
  assume "singleNoopReference opts"
  then obtain ty' where "opts = [SpanReference ty' noopSpanContext]"
    by (auto simp: singleNoopReference_iff)
  moreover have "SpanReference ty (spanContextPtr pc) \<in> set opts"
    using assms by simp
  ultimately show False by simp
qed

lemmas span_eval =
  StartSpan_def singleNoopReference_def getShadowTracer_def zeroStartSpanOptions_def
  noParentVars_def buildSpan_def initSpan_def assignIDs_def linkShadow_def startRecording_def
  openNetTrace_def copyParent_def baggageToTags_def zeroSpan_def randInt63_def newSpanGroup_def
  SetTag_def enableRecording_def linkShadowSpan_def mapIndex_def Snowball_def maxLogsPerSpan_def

text \<open>
  Claim C2. When no option of the call is a real parent reference (every reference is
  of another type, or to nil, or to the noop context), the setting
  \<^verbatim>\<open>trace.debug.enable\<close> is off, the Tracer has no shadow tracer, the
  \<^verbatim>\<open>Recordable\<close> option is absent and \<^verbatim>\<open>forceRealSpans\<close> is false, \<^verbatim>\<open>StartSpan\<close>
  returns the Tracer's preallocated noop span and leaves the random source and the
  allocator untouched: nothing is allocated.
\<close>

theorem StartSpan_noop_fast_path:
  assumes "\<forall>opt \<in> set opts. \<not> realParentReference opt"
    and "\<not> enableNetTrace w"
    and "shadowTracer t = None"
    and "recordableOption \<notin> set opts"
    and "\<not> forceRealSpans t"
  shows "StartSpan t w operationName opts = Returns (noopSpanPtr (tracerAddr t), w)"
proof (cases "singleNoopReference opts")
  case True
  then show ?thesis by (simp add: StartSpan_def)
next
  case False
  have "referencesLoop (References (fold Apply opts zeroStartSpanOptions)) w =
      Returns (noParentVars, w)"
    using assms(1) by (rule referencesLoop_no_parent)
  with False assms(2-5) show ?thesis
    by (simp add: StartSpan_def Let_def getShadowTracer_def noParentVars_def)
qed

theorem StartSpan_noop_fast_path_witness:
  "StartSpan \<lparr>tracerAddr = 7, forceRealSpans = False, shadowTracer = None\<rparr>
     \<lparr>enableNetTrace = False, randVals = (\<lambda>n. 5), randNext = 0, now = 1, heapTop = 0\<rparr>
     ''op'' [TagOption ''k'' (TagString ''v''), SpanReference ChildOfRef noopSpanContext,
             SpanReference OtherRef ForeignContext] =
   Returns (noopSpanPtr 7,
     \<lparr>enableNetTrace = False, randVals = (\<lambda>n. 5), randNext = 0, now = 1, heapTop = 0\<rparr>)"
  using StartSpan_noop_fast_path
    [where opts = "[TagOption ''k'' (TagString ''v''), SpanReference ChildOfRef noopSpanContext,
             SpanReference OtherRef ForeignContext]"
      and w = "\<lparr>enableNetTrace = False, randVals = (\<lambda>n. 5), randNext = 0, now = 1, heapTop = 0\<rparr>"
      and t = "\<lparr>tracerAddr = 7, forceRealSpans = False, shadowTracer = None\<rparr>"
      and operationName = "''op''"]
  by simp

text \<open>
  Claim C3. When the parent the call resolves (the first real parent reference among
  its options) is a span context that belongs to no recording group and whose baggage
  has a non-empty value under the key \<^verbatim>\<open>sb\<close>, \<^verbatim>\<open>StartSpan\<close> returns a real span, and
  that span is recording, with kind Snowball, into a group allocated by this very call:
  its address is the allocator's next free one, which no group had before. No call of
  \<^verbatim>\<open>StartRecording\<close> is involved.
\<close>

theorem StartSpan_snowball:
  assumes "opts = pre @ SpanReference ty (spanContextPtr pc) # post"
    and "\<forall>opt \<in> set pre. \<not> realParentReference opt"
    and "ty = ChildOfRef \<or> ty = FollowsFromRef"
    and "recordingGroup pc = None"
    and "mapIndex (Baggage pc) Snowball \<noteq> []"
  shows "\<exists>s w'. StartSpan t w operationName opts = Returns (spanPtr s, w') \<and>
           mu_recordingGroup s = Some (heapTop w) \<and>
           mu_recordingType s = SnowballRecording \<and>
           heapTop w' = Suc (heapTop w)"
proof -
  let ?pv = "\<lparr>parentType = ty, parentCtx = Some pc,
              recGroup = Some (heapTop w), recType = SnowballRecording\<rparr>"
  let ?w1 = "w\<lparr>heapTop := Suc (heapTop w)\<rparr>"
  let ?sso = "fold Apply opts zeroStartSpanOptions"
  have single: "\<not> singleNoopReference opts"
    using assms(1) by (rule real_parent_not_single_noop)
  have nonempty: "length opts \<noteq> 0" using assms(1) by simp
  have loop: "referencesLoop (References ?sso) w = Returns (?pv, ?w1)"
    using referencesLoop_parent [OF assms(1,2,3), of w] assms(4,5) by simp
  obtain s w' where b: "buildSpan t ?w1 operationName ?sso ?pv (shadowTr pc) (enableNetTrace w)
      = (spanPtr s, w')"
    and "mu_recordingGroup s = recGroup ?pv"
    and "recGroup ?pv \<noteq> None \<longrightarrow> mu_recordingType s = recType ?pv"
    and "heapTop w' = heapTop ?w1"
    using buildSpan_result [of t ?w1 operationName ?sso ?pv "shadowTr pc" "enableNetTrace w"]
    by blast
  then have fields: "mu_recordingGroup s = Some (heapTop w)"
    "mu_recordingType s = SnowballRecording" "heapTop w' = Suc (heapTop w)"
    by simp_all
  have "StartSpan t w operationName opts = Returns (spanPtr s, w')"
    using single nonempty loop b by (simp add: StartSpan_def Let_def)
  with fields show ?thesis by blast
qed

theorem StartSpan_snowball_witness:
  "\<exists>s w'. StartSpan \<lparr>tracerAddr = 7, forceRealSpans = False, shadowTracer = None\<rparr>
       \<lparr>enableNetTrace = False, randVals = (\<lambda>n. 5), randNext = 0, now = 1, heapTop = 3\<rparr>
       ''op''
       [recordableOption,
        SpanReference ChildOfRef
          (spanContextPtr \<lparr>TraceID = 1, SpanID = 2, Baggage = [(''sb'', ''1'')],
             shadowTr = None, shadowCtx = None, recordingGroup = None,
             recordingType = NoRecording\<rparr>)] = Returns (spanPtr s, w') \<and>
     mu_recordingGroup s = Some 3 \<and> mu_recordingType s = SnowballRecording \<and> heapTop w' = 4"
  using StartSpan_snowball
    [where pre = "[recordableOption]" and post = "[]" and ty = ChildOfRef
      and pc = "\<lparr>TraceID = 1, SpanID = 2, Baggage = [(''sb'', ''1'')],
             shadowTr = None, shadowCtx = None, recordingGroup = None,
             recordingType = NoRecording\<rparr>"
      and w = "\<lparr>enableNetTrace = False, randVals = (\<lambda>n. 5), randNext = 0, now = 1, heapTop = 3\<rparr>"
      and t = "\<lparr>tracerAddr = 7, forceRealSpans = False, shadowTracer = None\<rparr>"
      and operationName = "''op''", OF refl]
  by (simp add: mapIndex_def Snowball_def)

text \<open>
  Claim C7. When the call resolves a real parent context, the shadow tracer of the new
  span is the one held in the parent's context, whatever shadow tracer the Tracer has
  at that moment: the call returns either the noop span, and then the parent's context
  holds no shadow tracer, or a real span whose shadow tracer is the parent's and whose
  mirrored span, if any, was opened in that tracer. So the child has no shadow mirror
  when the parent's context has no shadow tracer, even if the Tracer has one.
\<close>

theorem StartSpan_parent_shadow:
  assumes "opts = pre @ SpanReference ty (spanContextPtr pc) # post"
    and "\<forall>opt \<in> set pre. \<not> realParentReference opt"
    and "ty = ChildOfRef \<or> ty = FollowsFromRef"
  shows "\<exists>res w'. StartSpan t w operationName opts = Returns (res, w') \<and>
           (case res of
              noopSpanPtr a \<Rightarrow> shadowTr pc = None
            | spanPtr s \<Rightarrow>
                span_shadowTr s = shadowTr pc \<and>
                map_option shadowSpanTracer (span_shadowSpan s) =
                  map_option shadowAddr (shadowTr pc))"
proof -
  let ?sso = "fold Apply opts zeroStartSpanOptions"
  have single: "\<not> singleNoopReference opts"
    using assms(1) by (rule real_parent_not_single_noop)
  have nonempty: "length opts \<noteq> 0" using assms(1) by simp
  obtain pv w1 where loop: "referencesLoop (References ?sso) w = Returns (pv, w1)"
    and pc: "parentCtx pv = Some pc"
    using referencesLoop_parent [OF assms(1,2,3), of w] by (auto split: if_splits)
  show ?thesis
  proof (cases "recordableOption \<notin> set opts \<and> recGroup pv = None \<and> shadowTr pc = None \<and>
      \<not> enableNetTrace w \<and> \<not> forceRealSpans t")
    case True
    then have "StartSpan t w operationName opts = Returns (noopSpanPtr (tracerAddr t), w1)"
      using single nonempty loop pc by (simp add: StartSpan_def Let_def)
    with True show ?thesis by simp
  next
    case False
    obtain s w' where b: "buildSpan t w1 operationName ?sso pv (shadowTr pc) (enableNetTrace w)
        = (spanPtr s, w')"
      and sh: "span_shadowTr s = shadowTr pc"
        "map_option shadowSpanTracer (span_shadowSpan s) = map_option shadowAddr (shadowTr pc)"
      using buildSpan_result [of t w1 operationName ?sso pv "shadowTr pc" "enableNetTrace w"]
      by blast
    have "StartSpan t w operationName opts = Returns (spanPtr s, w')"
      using False single nonempty loop pc b by (auto simp: StartSpan_def Let_def)
    with sh show ?thesis by simp
  qed
qed

theorem StartSpan_parent_shadow_witness:
  "\<exists>s w'. StartSpan
       \<lparr>tracerAddr = 7, forceRealSpans = True,
        shadowTracer = Some \<lparr>shadowAddr = 9, Typ = ''lightstep'',
          shadowInject = (\<lambda>c f. ([], None)), shadowExtract = (\<lambda>f m. (None, None))\<rparr>\<rparr>
       \<lparr>enableNetTrace = False, randVals = (\<lambda>n. 5), randNext = 0, now = 1, heapTop = 3\<rparr>
       ''op''
       [SpanReference FollowsFromRef
          (spanContextPtr \<lparr>TraceID = 1, SpanID = 2, Baggage = [],
             shadowTr = None, shadowCtx = None, recordingGroup = None,
             recordingType = NoRecording\<rparr>)] = Returns (spanPtr s, w') \<and>
     span_shadowTr s = None \<and> span_shadowSpan s = None"
  using StartSpan_parent_shadow
    [where pre = "[]" and post = "[]" and ty = FollowsFromRef
      and pc = "\<lparr>TraceID = 1, SpanID = 2, Baggage = [],
             shadowTr = None, shadowCtx = None, recordingGroup = None,
             recordingType = NoRecording\<rparr>"
      and w = "\<lparr>enableNetTrace = False, randVals = (\<lambda>n. 5), randNext = 0, now = 1, heapTop = 3\<rparr>"
      and t = "\<lparr>tracerAddr = 7, forceRealSpans = True,
        shadowTracer = Some \<lparr>shadowAddr = 9, Typ = ''lightstep'',
          shadowInject = (\<lambda>c f. ([], None)), shadowExtract = (\<lambda>f m. (None, None))\<rparr>\<rparr>"
      and operationName = "''op''", OF refl]
  by (auto simp: span_eval split: Span.splits)

text \<open>
  Claim C4, as amended. On a Tracer with \<^verbatim>\<open>trace.debug.enable\<close> off, no shadow tracer
  and \<^verbatim>\<open>forceRealSpans\<close> false, \<^verbatim>\<open>StartSpan\<close> with a single parent reference to the
  noop context returns what \<^verbatim>\<open>StartSpan\<close> with no option returns, for every operation
  name and every reference type.
\<close>

theorem StartSpan_noop_parent_disabled:
  assumes "\<not> enableNetTrace w" and "shadowTracer t = None" and "\<not> forceRealSpans t"
  shows "StartSpan t w operationName [SpanReference ty noopSpanContext] =
         StartSpan t w operationName []"
  using assms by (simp add: StartSpan_def singleNoopReference_def getShadowTracer_def)

theorem StartSpan_noop_parent_disabled_witness:
  "StartSpan \<lparr>tracerAddr = 7, forceRealSpans = False, shadowTracer = None\<rparr>
     \<lparr>enableNetTrace = False, randVals = (\<lambda>n. 5), randNext = 0, now = 1, heapTop = 0\<rparr>
     ''op'' [SpanReference FollowsFromRef noopSpanContext] =
   StartSpan \<lparr>tracerAddr = 7, forceRealSpans = False, shadowTracer = None\<rparr>
     \<lparr>enableNetTrace = False, randVals = (\<lambda>n. 5), randNext = 0, now = 1, heapTop = 0\<rparr>
     ''op'' []"
  using StartSpan_noop_parent_disabled
    [of "\<lparr>enableNetTrace = False, randVals = (\<lambda>n. 5), randNext = 0, now = 1, heapTop = 0\<rparr>"
      "\<lparr>tracerAddr = 7, forceRealSpans = False, shadowTracer = None\<rparr>" "''op''" FollowsFromRef]
  by simp

text \<open>
  In the other configurations the two calls differ. The first fast path returns the
  noop span for a single reference to the noop context before it reads the
  configuration; with no option and the setting \<^verbatim>\<open>trace.debug.enable\<close> on, the call
  builds a real span with its debug sink.
\<close>

theorem StartSpan_noop_parent_counterexample:
  "StartSpan \<lparr>tracerAddr = 7, forceRealSpans = False, shadowTracer = None\<rparr>
     \<lparr>enableNetTrace = True, randVals = (\<lambda>n. 5), randNext = 0, now = 1, heapTop = 0\<rparr>
     ''op'' [SpanReference ChildOfRef noopSpanContext] =
   Returns (noopSpanPtr 7,
     \<lparr>enableNetTrace = True, randVals = (\<lambda>n. 5), randNext = 0, now = 1, heapTop = 0\<rparr>) \<and>
   StartSpan \<lparr>tracerAddr = 7, forceRealSpans = False, shadowTracer = None\<rparr>
     \<lparr>enableNetTrace = True, randVals = (\<lambda>n. 5), randNext = 0, now = 1, heapTop = 0\<rparr>
     ''op'' [] =
   Returns (spanPtr
     \<lparr>tracer = 7, operation = ''op'', startTime = 1, duration = - 1, tags = [],
      span_TraceID = 5, span_SpanID = 5, parentSpanID = 0, span_shadowTr = None,
      span_shadowSpan = None, mu_recordingGroup = None, mu_recordingType = NoRecording,
      netTr = Some \<lparr>family = ''tracing'', title = ''op'', maxEvents = 1000\<rparr>,
      mu_Baggage = []\<rparr>,
     \<lparr>enableNetTrace = True, randVals = (\<lambda>n. 5), randNext = 2, now = 1, heapTop = 0\<rparr>)"
  by (simp add: span_eval)

end
